theory Spec2Isabelle
  imports Complex_Main "HOL-Library.Word" "HOL-Library.Multiset"
begin

section \<open>JavaScript values\<close>

text \<open>
  Strings are lists of bytes, a character outside ASCII being its UTF-8 bytes. A property that
  may be \<^verbatim>\<open>null\<close> or \<^verbatim>\<open>undefined\<close> is an \<open>option\<close>. Time stamps are milliseconds since the
  epoch: the ISO strings of the store are only ever read back through \<^verbatim>\<open>new Date(..)\<close>, so the
  model keeps the number.
\<close>

text \<open>The test \<^verbatim>\<open>!v\<close> on a string property: \<^verbatim>\<open>null\<close>, \<^verbatim>\<open>undefined\<close> and the empty string are falsy.\<close>

definition truthy :: "string option \<Rightarrow> bool" where
  "truthy v = (case v of None \<Rightarrow> False | Some s \<Rightarrow> s \<noteq> [])"

text \<open>\<^verbatim>\<open>v || d\<close> on a string property.\<close>

definition or_else :: "string option \<Rightarrow> string \<Rightarrow> string" where
  "or_else v d = (case v of None \<Rightarrow> d | Some s \<Rightarrow> if s = [] then d else s)"

text \<open>
  The code points that \<^verbatim>\<open>String.prototype.trim\<close> removes (\<^verbatim>\<open>WhiteSpace\<close> and \<^verbatim>\<open>LineTerminator\<close> of
  ECMAScript), each as its UTF-8 bytes: U+0009 to U+000D, U+0020, U+00A0, U+1680, U+2000 to
  U+200A, U+2028, U+2029, U+202F, U+205F, U+3000 and U+FEFF.
\<close>

definition white_space :: "string list" where
  "white_space =
     [[CHR 0x09], [CHR 0x0A], [CHR 0x0B], [CHR 0x0C], [CHR 0x0D], [CHR 0x20],
      [CHR 0xC2, CHR 0xA0], [CHR 0xE1, CHR 0x9A, CHR 0x80],
      [CHR 0xE2, CHR 0x80, CHR 0x80], [CHR 0xE2, CHR 0x80, CHR 0x81],
      [CHR 0xE2, CHR 0x80, CHR 0x82], [CHR 0xE2, CHR 0x80, CHR 0x83],
      [CHR 0xE2, CHR 0x80, CHR 0x84], [CHR 0xE2, CHR 0x80, CHR 0x85],
      [CHR 0xE2, CHR 0x80, CHR 0x86], [CHR 0xE2, CHR 0x80, CHR 0x87],
      [CHR 0xE2, CHR 0x80, CHR 0x88], [CHR 0xE2, CHR 0x80, CHR 0x89],
      [CHR 0xE2, CHR 0x80, CHR 0x8A], [CHR 0xE2, CHR 0x80, CHR 0xA8],
      [CHR 0xE2, CHR 0x80, CHR 0xA9], [CHR 0xE2, CHR 0x80, CHR 0xAF],
      [CHR 0xE2, CHR 0x81, CHR 0x9F], [CHR 0xE3, CHR 0x80, CHR 0x80],
      [CHR 0xEF, CHR 0xBB, CHR 0xBF]]"

text \<open>\<open>strip ws s\<close> removes from the head of \<open>s\<close> every sequence of \<open>ws\<close>, as long as one is there.\<close>

function strip :: "string list \<Rightarrow> string \<Rightarrow> string" where
  "strip ws s =
     (case find (\<lambda>w. w \<noteq> [] \<and> take (length w) s = w) ws of
        None \<Rightarrow> s
      | Some w \<Rightarrow> strip ws (drop (length w) s))"
  by pat_completeness auto
termination
proof (relation "measure (\<lambda>(ws, s). length s)")
  show "wf (measure (\<lambda>(ws, s). length s))" by simp
next
  fix ws :: "string list" and s w :: string
  assume "find (\<lambda>w. w \<noteq> [] \<and> take (length w) s = w) ws = Some w"
  then have w: "w \<noteq> []" "take (length w) s = w" by (auto simp add: find_Some_iff)
  then have "s \<noteq> []" by auto
  with w(1) show "((ws, drop (length w) s), (ws, s)) \<in> measure (\<lambda>(ws, s). length s)" by simp
qed

text \<open>\<^verbatim>\<open>String.prototype.trim\<close>: white space goes from the head, then from the end.\<close>

definition trim :: "string \<Rightarrow> string" where
  "trim s = rev (strip (map rev white_space) (rev (strip white_space s)))"

definition upper_char :: "char \<Rightarrow> char" where
  "upper_char c =
     (case map_of (zip ''abcdefghijklmnopqrstuvwxyz'' ''ABCDEFGHIJKLMNOPQRSTUVWXYZ'') c of
        None \<Rightarrow> c
      | Some u \<Rightarrow> u)"

text \<open>
  \<^verbatim>\<open>String.prototype.toUpperCase\<close> on the letters of ASCII; the bytes of any other character are
  left as they are. The codes of this program are ASCII: a generated code is a prefix (\<^verbatim>\<open>ACE\<close>,
  \<^verbatim>\<open>LOCAL\<close>, \<^verbatim>\<open>OFFLINE\<close>), hyphens and symbols of the alphabet \<open>chars\<close> below.
\<close>

definition toUpperCase :: "string \<Rightarrow> string" where
  "toUpperCase s = map upper_char s"

section \<open>Data model (\<^verbatim>\<open>src/services/auth.ts\<close>, TYPES)\<close>

datatype role = student | admin

text \<open>
  \<^verbatim>\<open>interface User\<close>. The interface is erased at run time and the client casts the parsed
  reply of the server to it (\<^verbatim>\<open>res as User\<close>), so every key may be missing.
\<close>

record user =
  username :: "string option"
  role :: "role option"
  fullName :: "string option"
  regNumber :: "string option"
  isTokenLogin :: "bool option"
  allowedExamType :: "string option"

text \<open>
  The keys of \<^verbatim>\<open>TokenInfo.metadata\<close> that the functions below read or write; the other keys
  (\<^verbatim>\<open>payment_ref\<close>, \<^verbatim>\<open>amount_paid\<close>, \<^verbatim>\<open>phone_number\<close>, \<^verbatim>\<open>email\<close>, ...) are carried in \<open>other\<close>.
\<close>

record metadata =
  full_name :: "string option"
  exam_type :: "string option"
  generated_by :: "string option"
  other :: "(string \<times> string) list"

text \<open>
  \<^verbatim>\<open>interface TokenInfo\<close>; also the row type of the table \<^verbatim>\<open>access_tokens\<close>. \<open>created_at\<close> is the
  time value of \<^verbatim>\<open>new Date(created_at)\<close>: \<open>None\<close> is \<^verbatim>\<open>NaN\<close>, for an object without the key and for
  a string that does not read as a date.
\<close>

record token_info =
  id_field :: string
  token_code :: string
  is_active :: bool
  created_at :: "int option"
  device_fingerprint :: "string option"
  bound_at :: "int option"
  expires_at :: "int option"
  metadata :: metadata

section \<open>Local storage (\<^verbatim>\<open>src/services/auth.ts\<close>, LOCAL STORAGE HELPERS)\<close>

text \<open>What \<^verbatim>\<open>localStorage.getItem\<close> finds under a key: nothing, text that does not parse, or a value.\<close>

datatype 'a slot = Missing | Unparsable | Parsed 'a

record client =
  local_tokens :: "token_info list slot"
  current_user :: "user option"

definition getLocalTokens :: "client \<Rightarrow> token_info list" where
  "getLocalTokens c = (case local_tokens c of Parsed ts \<Rightarrow> ts | _ \<Rightarrow> [])"

definition saveLocalToken :: "token_info \<Rightarrow> client \<Rightarrow> client" where
  "saveLocalToken token c =
     (let tokens = filter (\<lambda>t. token_code t \<noteq> token_code token) (getLocalTokens c)
      in c\<lparr>local_tokens := Parsed (token # tokens)\<rparr>)"

text \<open>
  \<^verbatim>\<open>updates\<close> is a \<^verbatim>\<open>Partial<TokenInfo>\<close>; the spread \<^verbatim>\<open>{ ...t, ...updates }\<close> is the function
  that overwrites the keys of \<^verbatim>\<open>updates\<close> in \<^verbatim>\<open>t\<close>.
\<close>

definition updateLocalToken :: "string \<Rightarrow> (token_info \<Rightarrow> token_info) \<Rightarrow> client \<Rightarrow> client" where
  "updateLocalToken tokenCode updates c =
     (let tokens = map (\<lambda>t. if token_code t = tokenCode then updates t else t) (getLocalTokens c)
      in c\<lparr>local_tokens := Parsed tokens\<rparr>)"

definition deleteLocalToken :: "string \<Rightarrow> client \<Rightarrow> client" where
  "deleteLocalToken tokenCode c =
     (let tokens = filter (\<lambda>t. token_code t \<noteq> tokenCode) (getLocalTokens c)
      in c\<lparr>local_tokens := Parsed tokens\<rparr>)"

section \<open>Offline verification (\<^verbatim>\<open>src/services/auth.ts\<close>, \<^verbatim>\<open>verifyLocalToken\<close>)\<close>

definition msg_not_cached :: string where
  "msg_not_cached = ''Offline: Invalid Access Code or not cached on this device.''"

definition msg_deactivated_local :: string where
  "msg_deactivated_local = ''This token has been deactivated by Admin.''"

definition msg_binding_required :: string where
  "msg_binding_required = ''BINDING_REQUIRED''"

text \<open>The message starts with the sign U+26D4, here its three UTF-8 bytes.\<close>

definition msg_locked_local :: string where
  "msg_locked_local =
     [CHR 0xE2, CHR 0x9B, CHR 0x94] @ '' ACCESS DENIED: This Access Code is locked to another device.''"

text \<open>The object that \<^verbatim>\<open>verifyLocalToken\<close> returns for the cache entry \<^verbatim>\<open>found\<close>.\<close>

definition local_identity :: "token_info \<Rightarrow> user" where
  "local_identity found =
     \<lparr>username = Some (token_code found),
      role = Some student,
      fullName = Some (or_else (full_name (metadata found)) ''Candidate (Offline)''),
      regNumber = Some (token_code found),
      isTokenLogin = Some True,
      allowedExamType = Some (or_else (exam_type (metadata found)) ''BOTH'')\<rparr>"

text \<open>A thrown \<^verbatim>\<open>Error\<close> is \<open>Inl\<close> of its message; the client state is returned beside the result.\<close>

definition verifyLocalToken ::
  "string \<Rightarrow> string \<Rightarrow> bool \<Rightarrow> client \<Rightarrow> (string + user) \<times> client" where
  "verifyLocalToken token currentFingerprint confirmBinding c =
     (case find (\<lambda>t. toUpperCase (token_code t) = toUpperCase (trim token)) (getLocalTokens c) of
        None \<Rightarrow> (Inl msg_not_cached, c)
      | Some found \<Rightarrow>
          if \<not> is_active found then (Inl msg_deactivated_local, c)
          else if \<not> truthy (device_fingerprint found) then
            (if \<not> confirmBinding then (Inl msg_binding_required, c)
             else (Inr (local_identity found),
                   updateLocalToken (token_code found)
                     (\<lambda>t. t\<lparr>device_fingerprint := Some currentFingerprint\<rparr>) c))
          else if device_fingerprint found \<noteq> Some currentFingerprint then (Inl msg_locked_local, c)
          else (Inr (local_identity found), c))"

section \<open>Numbers and dates\<close>

text \<open>The decimal rendering of a number inside a template literal.\<close>

function show_nat :: "nat \<Rightarrow> string" where
  "show_nat n =
     (if n < 10 then [''0123456789'' ! n]
      else show_nat (n div 10) @ [''0123456789'' ! (n mod 10)])"
  by pat_completeness auto
termination
  by (relation "measure (\<lambda>n. n)") auto

definition show_int :: "int \<Rightarrow> string" where
  "show_int i = (if i < 0 then CHR ''-'' # show_nat (nat (- i)) else show_nat (nat i))"

definition ms_per_day :: int where
  "ms_per_day = 1000 * 60 * 60 * 24"

text \<open>
  \<^verbatim>\<open>getRemainingDays\<close> (\<^verbatim>\<open>src/server.js\<close>, and the same in \<^verbatim>\<open>src/unnamed/part_002\<close>), with the
  reading \<open>now\<close> of the clock as an argument. \<^verbatim>\<open>Math.ceil\<close> of the quotient is the integer
  ceiling: both operands are integers far below \<open>2^53\<close>.
\<close>

definition getRemainingDays :: "int option \<Rightarrow> int \<Rightarrow> int option" where
  "getRemainingDays expiresAt now =
     (case expiresAt of
        None \<Rightarrow> None
      | Some expiry \<Rightarrow> (let diffTime = expiry - now in Some (- ((- diffTime) div ms_per_day))))"

text \<open>
  The time values of the built-in \<^verbatim>\<open>Date\<close>, after the abstract operations of the ECMAScript
  specification (section 21.4.1, Time Values and Time Range): days, years, months (0 to 11)
  and days of the month of a time value in milliseconds since the epoch. \<^verbatim>\<open>TimeClip\<close> is left
  out: the clock of the server is within the range of \<^verbatim>\<open>Date\<close>.
\<close>

definition msPerDay :: int where
  "msPerDay = 86400000"

definition Day :: "int \<Rightarrow> int" where
  "Day t = t div msPerDay"

definition TimeWithinDay :: "int \<Rightarrow> int" where
  "TimeWithinDay t = t mod msPerDay"

definition leap_year :: "int \<Rightarrow> bool" where
  "leap_year y = ((y mod 4 = 0 \<and> y mod 100 \<noteq> 0) \<or> y mod 400 = 0)"

definition DaysInYear :: "int \<Rightarrow> int" where
  "DaysInYear y = (if leap_year y then 366 else 365)"

definition DayFromYear :: "int \<Rightarrow> int" where
  "DayFromYear y = 365 * (y - 1970) + (y - 1969) div 4 - (y - 1901) div 100 + (y - 1601) div 400"

text \<open>
  \<^verbatim>\<open>YearFromTime(t)\<close> is the largest year that starts at or before \<open>t\<close>. \<open>YearFromDay\<close> finds it
  from an estimate that is off by one year at most; \<open>YearFromDay_bounds\<close> and
  \<open>YearFromDay_unique\<close> below show that it is that year.
\<close>

definition YearFromDay :: "int \<Rightarrow> int" where
  "YearFromDay d =
     (let c = 1970 + (400 * d) div 146097
      in if DayFromYear (c + 1) \<le> d then c + 1
         else if DayFromYear c \<le> d then c
         else c - 1)"

definition YearFromTime :: "int \<Rightarrow> int" where
  "YearFromTime t = YearFromDay (Day t)"

definition DayWithinYear :: "int \<Rightarrow> int" where
  "DayWithinYear t = Day t - DayFromYear (YearFromTime t)"

definition InLeapYear :: "int \<Rightarrow> int" where
  "InLeapYear t = (if leap_year (YearFromTime t) then 1 else 0)"

text \<open>The day of the year on which month \<open>m\<close> starts, and the month of a day of the year.\<close>

definition month_start :: "int \<Rightarrow> int \<Rightarrow> int" where
  "month_start leap m =
     (if m = 0 then 0 else if m = 1 then 31 else if m = 2 then 59 + leap
      else if m = 3 then 90 + leap else if m = 4 then 120 + leap else if m = 5 then 151 + leap
      else if m = 6 then 181 + leap else if m = 7 then 212 + leap else if m = 8 then 243 + leap
      else if m = 9 then 273 + leap else if m = 10 then 304 + leap else 334 + leap)"

definition month_of_day :: "int \<Rightarrow> int \<Rightarrow> int" where
  "month_of_day leap d =
     (if d < 31 then 0 else if d < 59 + leap then 1 else if d < 90 + leap then 2
      else if d < 120 + leap then 3 else if d < 151 + leap then 4 else if d < 181 + leap then 5
      else if d < 212 + leap then 6 else if d < 243 + leap then 7 else if d < 273 + leap then 8
      else if d < 304 + leap then 9 else if d < 334 + leap then 10 else 11)"

definition MonthFromTime :: "int \<Rightarrow> int" where
  "MonthFromTime t = month_of_day (InLeapYear t) (DayWithinYear t)"

definition DateFromTime :: "int \<Rightarrow> int" where
  "DateFromTime t = DayWithinYear t - month_start (InLeapYear t) (MonthFromTime t) + 1"

definition MakeDay :: "int \<Rightarrow> int \<Rightarrow> int \<Rightarrow> int" where
  "MakeDay year month date =
     (let ym = year + month div 12; mn = month mod 12
      in DayFromYear ym + month_start (if leap_year ym then 1 else 0) mn + date - 1)"

definition MakeDate :: "int \<Rightarrow> int \<Rightarrow> int" where
  "MakeDate day time = day * msPerDay + time"

text \<open>
  The time zone of the process is its local time zone adjustment \<^verbatim>\<open>LocalTZA(t, isUTC)\<close>, in
  milliseconds: any function of a time value and the flag, as the host defines it.
\<close>

type_synonym zone = "int \<Rightarrow> bool \<Rightarrow> int"

definition LocalTime :: "zone \<Rightarrow> int \<Rightarrow> int" where
  "LocalTime LocalTZA t = t + LocalTZA t True"

definition UTC :: "zone \<Rightarrow> int \<Rightarrow> int" where
  "UTC LocalTZA t = t - LocalTZA t False"

text \<open>
  \<^verbatim>\<open>d.setFullYear(d.getFullYear() + 1)\<close> on the time value \<open>thisTime\<close> of \<open>d\<close>: \<^verbatim>\<open>getFullYear\<close> is
  the year of the local time, and \<^verbatim>\<open>setFullYear\<close> builds the date from the month, the day of the
  month and the time of day of the local time, then goes back to UTC.
\<close>

definition setFullYear_next :: "zone \<Rightarrow> int \<Rightarrow> int" where
  "setFullYear_next LocalTZA thisTime =
     (let t = LocalTime LocalTZA thisTime;
          year = YearFromTime t + 1;
          newDate = MakeDay year (MonthFromTime t) (DateFromTime t)
      in UTC LocalTZA (MakeDate newDate (TimeWithinDay t)))"

text \<open>
  The number of days in month \<open>m\<close>, and the number of days from a local time to the same date of
  the next year: 366 when a 29 February lies between the two, 365 otherwise.
\<close>

definition month_length :: "int \<Rightarrow> int \<Rightarrow> int" where
  "month_length leap m =
     (if m = 1 then 28 + leap else if m = 3 \<or> m = 5 \<or> m = 8 \<or> m = 10 then 30 else 31)"

definition days_to_next_year :: "int \<Rightarrow> int" where
  "days_to_next_year t =
     (if (if MonthFromTime t \<le> 1 then leap_year (YearFromTime t)
          else leap_year (YearFromTime t + 1)) then 366 else 365)"

section \<open>The remote authority: requests, replies, the table\<close>

text \<open>
  The body of \<^verbatim>\<open>POST /api/auth/login-with-token\<close>, as the client sends it: the device
  fingerprint is always a string there. The key \<^verbatim>\<open>token\<close> is the field \<open>token_sent\<close>.
\<close>

record request =
  token_sent :: string
  deviceFingerprint :: string
  confirm_binding :: bool

text \<open>The JSON object a login handler of \<^verbatim>\<open>src/server.js\<close> sends, apart from its key \<^verbatim>\<open>error\<close>.\<close>

record login_data = user +
  requires_binding :: bool
  remainingDays :: "int option"
  expiresAt :: "int option"
  expiryMessage :: "string option"

text \<open>
  A reply: the HTTP status, whether the content type is there and includes
  \<^verbatim>\<open>application/json\<close>, the key \<^verbatim>\<open>error\<close> of the parsed body and the rest of the body.
\<close>

record 'a response =
  status :: nat
  json_content :: bool
  error :: "string option"
  data :: 'a

definition no_data :: login_data where
  "no_data =
     \<lparr>username = None, role = None, fullName = None, regNumber = None, isTokenLogin = None,
      allowedExamType = None, requires_binding = False, remainingDays = None, expiresAt = None,
      expiryMessage = None\<rparr>"

text \<open>\<^verbatim>\<open>res.status(code).json({ error: message })\<close> and \<^verbatim>\<open>res.json(body)\<close>.\<close>

definition json_error :: "nat \<Rightarrow> string \<Rightarrow> 'a \<Rightarrow> 'a response" where
  "json_error code message none =
     \<lparr>status = code, json_content = True, error = Some message, data = none\<rparr>"

definition json_ok :: "'a \<Rightarrow> 'a response" where
  "json_ok body = \<lparr>status = 200, json_content = True, error = None, data = body\<rparr>"

text \<open>
  \<^verbatim>\<open>.select('*').eq('token_code', token).single()\<close>: the row when exactly one row matches, an
  error (here \<open>None\<close>) otherwise.
\<close>

definition select_single :: "string \<Rightarrow> token_info list \<Rightarrow> token_info option" where
  "select_single code db =
     (case filter (\<lambda>r. token_code r = code) db of [r] \<Rightarrow> Some r | _ \<Rightarrow> None)"

text \<open>\<^verbatim>\<open>.update(changes).eq('id', id)\<close> and \<^verbatim>\<open>.update(changes).eq('token_code', code)\<close>.\<close>

definition update_by_id :: "string \<Rightarrow> (token_info \<Rightarrow> token_info) \<Rightarrow> token_info list \<Rightarrow> token_info list" where
  "update_by_id i changes db = map (\<lambda>r. if id_field r = i then changes r else r) db"

definition update_by_code :: "string \<Rightarrow> (token_info \<Rightarrow> token_info) \<Rightarrow> token_info list \<Rightarrow> token_info list" where
  "update_by_code code changes db = map (\<lambda>r. if token_code r = code then changes r else r) db"

section \<open>Token login on the server (\<^verbatim>\<open>src/server.js\<close>)\<close>

definition msg_invalid :: string where
  "msg_invalid = ''Invalid Access Token.''"

definition msg_deactivated :: string where
  "msg_deactivated = ''This token is deactivated.''"

definition msg_locked :: string where
  "msg_locked = ''Access code locked to another device.''"

definition server_identity :: "token_info \<Rightarrow> int \<Rightarrow> login_data" where
  "server_identity tokenData now =
     (let remaining = getRemainingDays (expires_at tokenData) now;
          expiryMsg = (case remaining of
                         None \<Rightarrow> ''Lifetime''
                       | Some n \<Rightarrow> if n = 0 then ''Lifetime'' else show_int n @ '' days remaining'')
      in \<lparr>username = Some (token_code tokenData),
          role = Some student,
          fullName = Some (or_else (full_name (metadata tokenData)) ''Student''),
          regNumber = Some (token_code tokenData),
          isTokenLogin = Some True,
          allowedExamType = Some (or_else (exam_type (metadata tokenData)) ''BOTH''),
          requires_binding = False,
          remainingDays = remaining,
          expiresAt = expires_at tokenData,
          expiryMessage = Some expiryMsg\<rparr>)"

text \<open>
  The handler of \<^verbatim>\<open>POST /api/auth/login-with-token\<close> in \<^verbatim>\<open>src/server.js\<close>. \<open>now\<close> is the
  reading of the clock in \<^verbatim>\<open>getRemainingDays\<close>; \<open>bindError\<close> is what the store answers to the
  update (\<open>None\<close>: no error), and an update that reports an error changes nothing. The
  handler returns its reply and the table.
\<close>

definition login_with_token ::
  "int \<Rightarrow> string option \<Rightarrow> request \<Rightarrow> token_info list \<Rightarrow> login_data response \<times> token_info list" where
  "login_with_token now bindError req db =
     (case select_single (token_sent req) db of
        None \<Rightarrow> (json_error 401 msg_invalid no_data, db)
      | Some tokenData \<Rightarrow>
          if \<not> is_active tokenData then (json_error 403 msg_deactivated no_data, db)
          else if \<not> truthy (device_fingerprint tokenData) then
            (if \<not> confirm_binding req then (json_ok (no_data\<lparr>requires_binding := True\<rparr>), db)
             else (case bindError of
                     Some message \<Rightarrow> (json_error 500 message no_data, db)
                   | None \<Rightarrow>
                       (json_ok (server_identity tokenData now),
                        update_by_id (id_field tokenData)
                          (\<lambda>r. r\<lparr>device_fingerprint := Some (deviceFingerprint req)\<rparr>) db)))
          else if device_fingerprint tokenData \<noteq> Some (deviceFingerprint req)
            then (json_error 403 msg_locked no_data, db)
          else (json_ok (server_identity tokenData now), db))"

section \<open>Token login on the server (\<^verbatim>\<open>src/unnamed/part_002\<close>)\<close>

text \<open>
  The status line of a token. The two renderings that need a date keep the numbers:
  \<open>DaysRemaining n until\<close> is \<^verbatim>\<open>`${n} days remaining (Valid until ${date})`\<close>.
\<close>

datatype status_message = DaysRemaining int int | Expired | Lifetime | Deactivated

text \<open>The summary that the handler sends; keys that a record above already has carry \<open>_out\<close>.\<close>

record token_summary =
  success :: bool
  token_code_out :: string
  is_active_out :: bool
  bound :: bool
  bound_at_out :: "int option"
  expires_at_out :: "int option"
  remaining_days :: "int option"
  exam_type_out :: string
  status_message :: status_message

datatype summary_body = NoBody | RequiresBinding | Summary token_summary

definition summary_of :: "token_info \<Rightarrow> int \<Rightarrow> token_summary" where
  "summary_of tokenData now =
     (let remainingDays = getRemainingDays (expires_at tokenData) now;
          expiryMessage =
            (case expires_at tokenData of
               None \<Rightarrow> Lifetime
             | Some until \<Rightarrow>
                 (case remainingDays of
                    None \<Rightarrow> Expired
                  | Some n \<Rightarrow> if n = 0 then Expired else DaysRemaining n until))
      in \<lparr>success = True,
          token_code_out = token_code tokenData,
          is_active_out = is_active tokenData,
          bound = truthy (device_fingerprint tokenData),
          bound_at_out = bound_at tokenData,
          expires_at_out = expires_at tokenData,
          remaining_days = remainingDays,
          exam_type_out = or_else (exam_type (metadata tokenData)) ''BOTH'',
          status_message = (if is_active tokenData then expiryMessage else Deactivated)\<rparr>)"

text \<open>
  The handler of \<^verbatim>\<open>POST /api/auth/login-with-token\<close> in \<^verbatim>\<open>src/unnamed/part_002\<close>. \<open>clk k\<close> is
  the \<open>k\<close>-th reading of the clock during the request: a binding request reads it for
  \<^verbatim>\<open>expiresAt\<close>, for \<^verbatim>\<open>bound_at\<close> in the update, for \<^verbatim>\<open>tokenData.bound_at\<close> and in
  \<^verbatim>\<open>getRemainingDays\<close>; any other request reads it once. \<open>LocalTZA\<close> is the time zone of the
  server process. This handler has no branch for a fingerprint that differs from the stored one.
\<close>

definition login_with_token_part_002 ::
  "zone \<Rightarrow> (nat \<Rightarrow> int) \<Rightarrow> string option \<Rightarrow> request \<Rightarrow> token_info list
     \<Rightarrow> summary_body response \<times> token_info list" where
  "login_with_token_part_002 LocalTZA clk updateError req db =
     (case select_single (token_sent req) db of
        None \<Rightarrow> (json_error 401 ''Invalid Access Code.'' NoBody, db)
      | Some tokenData \<Rightarrow>
          if \<not> is_active tokenData
            then (json_error 403 ''This token has been deactivated.'' NoBody, db)
          else if \<not> truthy (device_fingerprint tokenData) then
            (if \<not> confirm_binding req then (json_ok RequiresBinding, db)
             else
               (let expiresAt = setFullYear_next LocalTZA (clk 0) in
                case updateError of
                  Some message \<Rightarrow> (json_error 500 message NoBody, db)
                | None \<Rightarrow>
                    (let db' = update_by_id (id_field tokenData)
                                 (\<lambda>r. r\<lparr>device_fingerprint := Some (deviceFingerprint req),
                                        bound_at := Some (clk 1),
                                        expires_at := Some expiresAt\<rparr>) db;
                         tokenData' = tokenData\<lparr>device_fingerprint := Some (deviceFingerprint req),
                                                bound_at := Some (clk 2),
                                                expires_at := Some expiresAt\<rparr>
                     in (json_ok (Summary (summary_of tokenData' (clk 3))), db'))))
          else (json_ok (Summary (summary_of tokenData (clk 0))), db))"

text \<open>
  The handler of \<^verbatim>\<open>POST /api/admin/reset-token-device\<close> in \<^verbatim>\<open>src/unnamed/part_002\<close>; the body of
  its reply is the flag \<^verbatim>\<open>success\<close>.
\<close>

definition reset_token_device ::
  "string option \<Rightarrow> string \<Rightarrow> token_info list \<Rightarrow> bool response \<times> token_info list" where
  "reset_token_device dbError tokenCode db =
     (case dbError of
        Some message \<Rightarrow> (json_error 500 message False, db)
      | None \<Rightarrow> (json_ok True, update_by_code tokenCode (\<lambda>r. r\<lparr>device_fingerprint := None\<rparr>) db))"

section \<open>The client (\<^verbatim>\<open>src/services/auth.ts\<close>)\<close>

text \<open>\<^verbatim>\<open>src/services/config.ts\<close>.\<close>

definition FORCE_OFFLINE :: bool where
  "FORCE_OFFLINE = False"

text \<open>
  What the network does with a request: the promise rejects with a message (no connection, the
  abort after 5000 ms, a body that does not parse), or it resolves with a reply.
\<close>

datatype 'a fetched = Rejected string | Resolved "'a response"

definition apiRequest :: "bool \<Rightarrow> 'a fetched \<Rightarrow> string + 'a" where
  "apiRequest onLine fetched =
     (if \<not> onLine \<and> \<not> FORCE_OFFLINE then Inl ''Network offline''
      else if FORCE_OFFLINE then Inl ''Offline Mode Enforced''
      else (case fetched of
              Rejected message \<Rightarrow> Inl message
            | Resolved res \<Rightarrow>
                if \<not> json_content res
                  then Inl (''Non-JSON response (Status '' @ show_nat (status res) @ '')'')
                else if \<not> (200 \<le> status res \<and> status res \<le> 299)
                  then Inl (or_else (error res) ''API Request Failed'')
                else Inr (data res)))"

text \<open>A promise under \<^verbatim>\<open>withTimeout\<close>: it settles before the timer, or the timer fires first.\<close>

datatype 'a timed = Late | InTime 'a

definition withTimeout :: "(string + 'a) timed \<Rightarrow> string \<Rightarrow> string + 'a" where
  "withTimeout promise fallbackError =
     (case promise of Late \<Rightarrow> Inl fallbackError | InTime settled \<Rightarrow> settled)"

text \<open>
  What a call of \<^verbatim>\<open>loginWithToken\<close> meets: the answer of \<^verbatim>\<open>getDeviceFingerprint\<close> (or \<open>Late\<close>,
  after 10000 ms), the flag \<^verbatim>\<open>navigator.onLine\<close>, what the network does with the request (or
  \<open>Late\<close>, when \<^verbatim>\<open>apiRequest\<close> is still pending after 5000 ms), and the clock: \<open>clock env k\<close> is
  its \<open>k\<close>-th reading during the call. Writing to \<^verbatim>\<open>localStorage\<close> is taken to succeed.
\<close>

record environment =
  device :: "(string + string) timed"
  navigator_onLine :: bool
  network :: "login_data fetched timed"
  clock :: "nat \<Rightarrow> int"

definition msg_device :: string where
  "msg_device = ''Could not verify device identity. Please refresh and try again.''"

text \<open>\<^verbatim>\<open>res as User\<close>: the keys of the interface.\<close>

definition as_User :: "login_data \<Rightarrow> user" where
  "as_User res =
     \<lparr>username = username res, role = role res, fullName = fullName res,
      regNumber = regNumber res, isTokenLogin = isTokenLogin res,
      allowedExamType = allowedExamType res\<rparr>"

text \<open>The entry that \<^verbatim>\<open>loginWithToken\<close> writes to the cache after the server has accepted.\<close>

definition cache_entry :: "(nat \<Rightarrow> int) \<Rightarrow> string \<Rightarrow> string \<Rightarrow> user \<Rightarrow> token_info" where
  "cache_entry clk token currentFingerprint user =
     \<lparr>id_field = ''cached-'' @ show_int (clk 0),
      token_code = token,
      is_active = True,
      created_at = Some (clk 1),
      device_fingerprint = Some currentFingerprint,
      bound_at = None,
      expires_at = None,
      metadata = \<lparr>full_name = fullName user, exam_type = allowedExamType user,
                  generated_by = Some ''ONLINE_CACHE'', other = []\<rparr>\<rparr>"

text \<open>The last three statements of \<^verbatim>\<open>loginWithToken\<close>: the local check, then the session.\<close>

definition local_login :: "string \<Rightarrow> string \<Rightarrow> bool \<Rightarrow> client \<Rightarrow> (string + user) \<times> client" where
  "local_login token currentFingerprint confirmBinding c =
     (case verifyLocalToken token currentFingerprint confirmBinding c of
        (Inl message, c') \<Rightarrow> (Inl message, c')
      | (Inr user, c') \<Rightarrow> (Inr user, c'\<lparr>current_user := Some user\<rparr>))"

text \<open>
  \<^verbatim>\<open>loginWithToken\<close> of \<^verbatim>\<open>src/services/auth.ts\<close>. Every error thrown inside the \<^verbatim>\<open>try\<close> reaches
  the \<^verbatim>\<open>catch\<close>, which throws it again when its message is \<^verbatim>\<open>BINDING_REQUIRED\<close> and otherwise
  lets the function go on to the local check.
\<close>

definition loginWithToken ::
  "environment \<Rightarrow> string \<Rightarrow> bool \<Rightarrow> client \<Rightarrow> (string + user) \<times> client" where
  "loginWithToken env token confirmBinding c =
     (case withTimeout (device env) ''Device Identity Timeout'' of
        Inl _ \<Rightarrow> (Inl msg_device, c)
      | Inr currentFingerprint \<Rightarrow>
          if \<not> FORCE_OFFLINE then
            (let thrown = (\<lambda>message.
                   if message = msg_binding_required then (Inl message, c)
                   else local_login token currentFingerprint confirmBinding c)
             in case withTimeout (case network env of
                                    Late \<Rightarrow> Late
                                  | InTime fetched \<Rightarrow> InTime (apiRequest (navigator_onLine env) fetched))
                       ''Timeout'' of
                  Inl message \<Rightarrow> thrown message
                | Inr res \<Rightarrow>
                    if requires_binding res then thrown msg_binding_required
                    else
                      (let user = as_User res;
                           c1 = saveLocalToken (cache_entry (clock env) token currentFingerprint user) c
                       in (Inr user, c1\<lparr>current_user := Some user\<rparr>)))
          else local_login token currentFingerprint confirmBinding c)"

text \<open>
  \<^verbatim>\<open>src/unnamed/part_000\<close> is an earlier copy of the client. Its \<^verbatim>\<open>verifyLocalToken\<close> differs
  from the one above in two messages only.
\<close>

definition msg_not_cached_part_000 :: string where
  "msg_not_cached_part_000 = ''Offline: Invalid Access Code or not cached''"

definition msg_locked_part_000 :: string where
  "msg_locked_part_000 =
     [CHR 0xE2, CHR 0x9B, CHR 0x94] @ '' ACCESS DENIED: Token locked to another device.''"

definition verifyLocalToken_part_000 ::
  "string \<Rightarrow> string \<Rightarrow> bool \<Rightarrow> client \<Rightarrow> (string + user) \<times> client" where
  "verifyLocalToken_part_000 token currentFingerprint confirmBinding c =
     (case find (\<lambda>t. toUpperCase (token_code t) = toUpperCase (trim token)) (getLocalTokens c) of
        None \<Rightarrow> (Inl msg_not_cached_part_000, c)
      | Some found \<Rightarrow>
          if \<not> is_active found then (Inl msg_deactivated_local, c)
          else if \<not> truthy (device_fingerprint found) then
            (if \<not> confirmBinding then (Inl msg_binding_required, c)
             else (Inr (local_identity found),
                   updateLocalToken (token_code found)
                     (\<lambda>t. t\<lparr>device_fingerprint := Some currentFingerprint\<rparr>) c))
          else if device_fingerprint found \<noteq> Some currentFingerprint
            then (Inl msg_locked_part_000, c)
          else (Inr (local_identity found), c))"

definition local_login_part_000 ::
  "string \<Rightarrow> string \<Rightarrow> bool \<Rightarrow> client \<Rightarrow> (string + user) \<times> client" where
  "local_login_part_000 token currentFingerprint confirmBinding c =
     (case verifyLocalToken_part_000 token currentFingerprint confirmBinding c of
        (Inl message, c') \<Rightarrow> (Inl message, c')
      | (Inr user, c') \<Rightarrow> (Inr user, c'\<lparr>current_user := Some user\<rparr>))"

text \<open>
  \<^verbatim>\<open>loginWithToken\<close> of \<^verbatim>\<open>src/unnamed/part_000\<close>: as above, but its \<^verbatim>\<open>catch\<close> has no test and
  always goes on to the local check.
\<close>

definition loginWithToken_part_000 ::
  "environment \<Rightarrow> string \<Rightarrow> bool \<Rightarrow> client \<Rightarrow> (string + user) \<times> client" where
  "loginWithToken_part_000 env token confirmBinding c =
     (case withTimeout (device env) ''Device Identity Timeout'' of
        Inl _ \<Rightarrow> (Inl msg_device, c)
      | Inr currentFingerprint \<Rightarrow>
          if \<not> FORCE_OFFLINE then
            (let thrown = (\<lambda>message :: string.
                   local_login_part_000 token currentFingerprint confirmBinding c)
             in case withTimeout (case network env of
                                    Late \<Rightarrow> Late
                                  | InTime fetched \<Rightarrow> InTime (apiRequest (navigator_onLine env) fetched))
                       ''Timeout'' of
                  Inl message \<Rightarrow> thrown message
                | Inr res \<Rightarrow>
                    if requires_binding res then thrown msg_binding_required
                    else
                      (let user = as_User res;
                           c1 = saveLocalToken (cache_entry (clock env) token currentFingerprint user) c
                       in (Inr user, c1\<lparr>current_user := Some user\<rparr>)))
          else local_login_part_000 token currentFingerprint confirmBinding c)"

text \<open>
  \<^verbatim>\<open>resetTokenDevice\<close>: the cache is updated first; the call of the server is not inside a
  \<^verbatim>\<open>try\<close>, so its error is the error of the function.
\<close>

definition resetTokenDevice :: "bool \<Rightarrow> bool fetched \<Rightarrow> string \<Rightarrow> client \<Rightarrow> (string + bool) \<times> client" where
  "resetTokenDevice onLine fetched tokenCode c =
     (let c' = updateLocalToken tokenCode (\<lambda>t. t\<lparr>device_fingerprint := None\<rparr>) c
      in if \<not> FORCE_OFFLINE then (apiRequest onLine fetched, c') else (Inr True, c'))"

text \<open>
  The comparator of \<^verbatim>\<open>getAllTokens\<close>,
  \<^verbatim>\<open>(a,b) => new Date(b.created_at).getTime() - new Date(a.created_at).getTime()\<close>: the difference
  of the two time values, and \<^verbatim>\<open>NaN\<close> (here \<open>None\<close>) when one of them is \<^verbatim>\<open>NaN\<close>.
\<close>

definition comparefn :: "token_info \<Rightarrow> token_info \<Rightarrow> int option" where
  "comparefn a b =
     (case created_at b of
        None \<Rightarrow> None
      | Some tb \<Rightarrow> (case created_at a of None \<Rightarrow> None | Some ta \<Rightarrow> Some (tb - ta)))"

text \<open>\<^verbatim>\<open>SortCompare\<close> of ECMAScript calls the comparator and reads \<^verbatim>\<open>NaN\<close> as \<open>+0\<close>.\<close>

definition SortCompare :: "token_info \<Rightarrow> token_info \<Rightarrow> int" where
  "SortCompare x y = (case comparefn x y of None \<Rightarrow> 0 | Some v \<Rightarrow> v)"

text \<open>
  The stable sort by a comparator, as an insertion sort: an item goes before the first item
  that it does not follow, and the items are inserted from the last to the first.
\<close>

fun insort_by :: "('a \<Rightarrow> 'a \<Rightarrow> int) \<Rightarrow> 'a \<Rightarrow> 'a list \<Rightarrow> 'a list" where
  "insort_by cmp x [] = [x]"
| "insort_by cmp x (y # ys) = (if cmp x y \<le> 0 then x # y # ys else y # insort_by cmp x ys)"

definition stable_sort :: "('a \<Rightarrow> 'a \<Rightarrow> int) \<Rightarrow> 'a list \<Rightarrow> 'a list" where
  "stable_sort cmp xs = foldr (insort_by cmp) xs []"

text \<open>
  \<^verbatim>\<open>Array.prototype.sort\<close> with this comparator (ECMAScript, section 23.1.3.30). The comparator
  is a consistent comparison function for the items when it returns \<^verbatim>\<open>NaN\<close> for no two of them
  (the other requirements hold of a difference of numbers); the result is then the stable sort
  of the items. Otherwise the sort order is implementation-defined: \<open>engine\<close> is what the host
  makes of the items then.
\<close>

definition consistent :: "token_info list \<Rightarrow> bool" where
  "consistent items = list_all (\<lambda>a. list_all (\<lambda>b. comparefn a b \<noteq> None) items) items"

definition Array_sort ::
  "(token_info list \<Rightarrow> token_info list) \<Rightarrow> token_info list \<Rightarrow> token_info list" where
  "Array_sort engine items =
     (if consistent items then stable_sort SortCompare items else engine items)"

text \<open>
  \<^verbatim>\<open>getAllTokens\<close>: the remote list when it arrives, then the cached tokens whose code is not yet
  in the list, then the sort.
\<close>

definition getAllTokens ::
  "(token_info list \<Rightarrow> token_info list) \<Rightarrow> bool \<Rightarrow> token_info list fetched \<Rightarrow> client
     \<Rightarrow> token_info list" where
  "getAllTokens engine onLine fetched c =
     (let onlineTokens =
            (if \<not> FORCE_OFFLINE
             then (case apiRequest onLine fetched of Inr tokens \<Rightarrow> tokens | Inl _ \<Rightarrow> [])
             else []);
          localTokens = getLocalTokens c;
          combined =
            fold (\<lambda>local combined.
                    if find (\<lambda>c. token_code c = token_code local) combined = None
                    then combined @ [local] else combined)
                 localTokens onlineTokens
      in Array_sort engine combined)"

section \<open>Token codes (\<^verbatim>\<open>generateSecureToken\<close> of \<^verbatim>\<open>src/services/auth.ts\<close>, \<^verbatim>\<open>generateTokenCode\<close> of \<^verbatim>\<open>src/server.js\<close>)\<close>

definition chars :: string where
  "chars = ''ABCDEFGHJKLMNPQRSTUVWXYZ23456789''"

text \<open>\<^verbatim>\<open>s.charAt(i)\<close> is empty out of range; \<^verbatim>\<open>s[i]\<close> is \<^verbatim>\<open>undefined\<close> there, appended as that word.\<close>

definition charAt :: "string \<Rightarrow> int \<Rightarrow> string" where
  "charAt s i = (if 0 \<le> i \<and> i < int (length s) then [s ! nat i] else [])"

definition char_index :: "string \<Rightarrow> nat \<Rightarrow> string" where
  "char_index s i = (if i < length s then [s ! i] else ''undefined'')"

text \<open>\<^verbatim>\<open>s.substring(a, b)\<close> and \<^verbatim>\<open>s.slice(a, b)\<close>, for \<open>a \<le> b\<close>.\<close>

definition substring :: "string \<Rightarrow> nat \<Rightarrow> nat \<Rightarrow> string" where
  "substring s a b = take (b - a) (drop a s)"

text \<open>
  The random source of \<^verbatim>\<open>generateSecureToken\<close>: the twelve entries of the \<^verbatim>\<open>Uint32Array\<close>
  that \<^verbatim>\<open>crypto.getRandomValues\<close> fills, or, without \<^verbatim>\<open>crypto\<close>, the twelve results of
  \<^verbatim>\<open>Math.random()\<close>. Such a result times 32 is exact in floating point, so the product and
  its floor are those of the real numbers.
\<close>

datatype random_source = CryptoValues "nat \<Rightarrow> 32 word" | MathRandom "nat \<Rightarrow> real"

definition generateSecureToken :: "random_source \<Rightarrow> string \<Rightarrow> string" where
  "generateSecureToken source prefix =
     (let len = 12;
          result =
            (case source of
               CryptoValues values \<Rightarrow>
                 fold (\<lambda>i result. result @ charAt chars (int (unat (values i) mod length chars)))
                   [0..<len] []
             | MathRandom random \<Rightarrow>
                 fold (\<lambda>i result. result @ charAt chars \<lfloor>random i * real (length chars)\<rfloor>)
                   [0..<len] [])
      in prefix @ ''-'' @ substring result 0 4 @ ''-'' @ substring result 4 8 @ ''-''
           @ substring result 8 12)"

text \<open>\<open>randomBytes i\<close> is the \<open>i\<close>-th byte of \<^verbatim>\<open>crypto.randomBytes(12)\<close>.\<close>

definition generateTokenCode :: "(nat \<Rightarrow> 8 word) \<Rightarrow> string \<Rightarrow> string" where
  "generateTokenCode randomBytes prefix =
     (let len = 12;
          result = fold (\<lambda>i result. result @ char_index chars (unat (randomBytes i) mod length chars))
                     [0..<len] []
      in prefix @ ''-'' @ substring result 0 4 @ ''-'' @ substring result 4 8 @ ''-''
           @ substring result 8 12)"

section \<open>Vocabulary of the statements\<close>

text \<open>The lookup at the head of \<^verbatim>\<open>verifyLocalToken\<close>, and the two awaited results of \<^verbatim>\<open>loginWithToken\<close>.\<close>

abbreviation cached :: "string \<Rightarrow> client \<Rightarrow> token_info option" where
  "cached tok c \<equiv>
     find (\<lambda>t. toUpperCase (token_code t) = toUpperCase (trim tok)) (getLocalTokens c)"

abbreviation device_identity :: "environment \<Rightarrow> string + string" where
  "device_identity env \<equiv> withTimeout (device env) ''Device Identity Timeout''"

abbreviation remote_attempt :: "environment \<Rightarrow> string + login_data" where
  "remote_attempt env \<equiv>
     withTimeout (case network env of
                    Late \<Rightarrow> Late
                  | InTime fetched \<Rightarrow> InTime (apiRequest (navigator_onLine env) fetched)) ''Timeout''"

text \<open>The list \<^verbatim>\<open>onlineTokens\<close> of \<^verbatim>\<open>getAllTokens\<close>, and the body of its \<^verbatim>\<open>forEach\<close>.\<close>

abbreviation online_tokens :: "bool \<Rightarrow> token_info list fetched \<Rightarrow> token_info list" where
  "online_tokens onLine fetched \<equiv>
     (case apiRequest onLine fetched of Inr tokens \<Rightarrow> tokens | Inl _ \<Rightarrow> [])"

abbreviation push_unknown :: "token_info \<Rightarrow> token_info list \<Rightarrow> token_info list" where
  "push_unknown \<equiv> (\<lambda>local combined.
      if find (\<lambda>c. token_code c = token_code local) combined = None
      then combined @ [local] else combined)"

text \<open>
  Ordered by \<open>created_at\<close>, newest first: every entry has a time of creation, and none is newer
  than an entry before it.
\<close>

definition newest_first :: "token_info list \<Rightarrow> bool" where
  "newest_first ts =
     sorted_wrt (\<lambda>a b. case (created_at a, created_at b) of
                          (Some ta, Some tb) \<Rightarrow> tb \<le> ta
                        | _ \<Rightarrow> False) ts"

text \<open>
  The format of a code in the words of the specification: the alphabet of 32 symbols, and a
  group of exactly four of them.
\<close>

definition alphabet :: string where
  "alphabet = ''ABCDEFGHJKLMNPQRSTUVWXYZ23456789''"

definition code_group :: "string \<Rightarrow> bool" where
  "code_group g = (length g = 4 \<and> list_all (\<lambda>x. x \<in> set alphabet) g)"

section \<open>Sample data\<close>

definition example_token :: token_info where
  "example_token =
     \<lparr>id_field = ''7'', token_code = ''ACE-AAAA-BBBB-CCCC'', is_active = True,
      created_at = Some 1000,
      device_fingerprint = None, bound_at = None, expires_at = None,
      metadata = \<lparr>full_name = Some ''Ada'', exam_type = Some ''JAMB'', generated_by = None,
                  other = []\<rparr>\<rparr>"

definition token_bound_to :: "string \<Rightarrow> token_info" where
  "token_bound_to fp = example_token\<lparr>device_fingerprint := Some fp\<rparr>"

definition deactivated_token :: token_info where
  "deactivated_token = (token_bound_to ''F1'')\<lparr>is_active := False\<rparr>"

definition expired_token :: token_info where
  "expired_token = (token_bound_to ''F1'')\<lparr>expires_at := Some 1000\<rparr>"

definition stamped_token :: "string option \<Rightarrow> token_info" where
  "stamped_token fp = example_token\<lparr>device_fingerprint := fp, bound_at := Some 4000,
                                   expires_at := Some 9000\<rparr>"

definition newer_token :: token_info where
  "newer_token = example_token\<lparr>id_field := ''8'', token_code := ''ACE-DDDD-EEEE-FFFF'',
                               created_at := Some 3000\<rparr>"

definition offline_token :: token_info where
  "offline_token = example_token\<lparr>id_field := ''9'', token_code := ''LOCAL-GGGG-HHHH-JJJJ'',
                                 created_at := Some 2000\<rparr>"

text \<open>
  A token as the route \<^verbatim>\<open>GET /api/admin/tokens\<close> of \<^verbatim>\<open>src/unnamed/part_002\<close> lists it: the reply
  has no key \<^verbatim>\<open>created_at\<close>. And an engine for \<^verbatim>\<open>Array.prototype.sort\<close> that runs the insertion
  sort on whatever \<^verbatim>\<open>SortCompare\<close> returns.
\<close>

definition undated :: "token_info \<Rightarrow> token_info" where
  "undated t = t\<lparr>created_at := None\<rparr>"

definition insertion_engine :: "token_info list \<Rightarrow> token_info list" where
  "insertion_engine items = stable_sort SortCompare items"

definition example_request :: "string \<Rightarrow> bool \<Rightarrow> request" where
  "example_request fp confirm =
     \<lparr>token_sent = ''ACE-AAAA-BBBB-CCCC'', deviceFingerprint = fp, confirm_binding = confirm\<rparr>"

definition example_client :: "token_info list \<Rightarrow> client" where
  "example_client ts = \<lparr>local_tokens = Parsed ts, current_user = None\<rparr>"

definition example_environment :: "string \<Rightarrow> login_data response \<Rightarrow> environment" where
  "example_environment fp reply =
     \<lparr>device = InTime (Inr fp), navigator_onLine = True, network = InTime (Resolved reply),
      clock = (\<lambda>k. 5000 + int k)\<rparr>"

definition example_clock :: "nat \<Rightarrow> int" where
  "example_clock k = 1793697781000 + int k"

text \<open>A clock late on 29 February 2024 (23:30 UTC), and two time zones without daylight saving.\<close>

definition leap_day_clock :: "nat \<Rightarrow> int" where
  "leap_day_clock k = 1709249400000 + int k"

definition utc_zone :: zone where
  "utc_zone = (\<lambda>t isUTC. 0)"

definition west_africa_time :: zone where
  "west_africa_time = (\<lambda>t isUTC. 3600000)"

definition even_odds :: "nat \<Rightarrow> real" where
  "even_odds i = 1 / 2"

section \<open>Auxiliary facts\<close>

declare show_nat.simps [simp del]

declare strip.simps [simp del]

lemma find_map_same_code:
  assumes "\<And>x. token_code (f x) = token_code x"
  shows "find (\<lambda>t. P (token_code t)) (map f xs) = map_option f (find (\<lambda>t. P (token_code t)) xs)"
  using assms by (induction xs) simp_all

lemma filter_map_same_code:
  assumes "\<And>x. token_code (f x) = token_code x"
  shows "filter (\<lambda>t. P (token_code t)) (map f xs) = map f (filter (\<lambda>t. P (token_code t)) xs)"
  using assms by (induction xs) simp_all

lemma getLocalTokens_update:
  "getLocalTokens (updateLocalToken code upd c)
     = map (\<lambda>t. if token_code t = code then upd t else t) (getLocalTokens c)"
  by (simp add: updateLocalToken_def getLocalTokens_def Let_def)

lemma cached_after_update:
  assumes "\<And>x. token_code (upd x) = token_code x" and "cached tok c = Some t"
  shows "cached tok (updateLocalToken code upd c) = Some (if token_code t = code then upd t else t)"
proof -
  have "\<And>x. token_code (if token_code x = code then upd x else x) = token_code x"
    using assms(1) by simp
  from find_map_same_code [of "\<lambda>x. if token_code x = code then upd x else x"
      "\<lambda>k. toUpperCase k = toUpperCase (trim tok)" "getLocalTokens c", OF this] assms(2)
  show ?thesis by (simp add: getLocalTokens_update)
qed

lemma select_single_filter:
  assumes "select_single code db = Some row"
  shows "filter (\<lambda>r. token_code r = code) db = [row]" and "token_code row = code"
proof -
  show one: "filter (\<lambda>r. token_code r = code) db = [row]"
    using assms by (auto simp: select_single_def split: list.splits)
  have "row \<in> set (filter (\<lambda>r. token_code r = code) db)"
    by (simp only: one list.set_intros)
  then show "token_code row = code" by simp
qed

lemma select_single_after_update:
  assumes "\<And>x. token_code (upd x) = token_code x" and "select_single code db = Some t"
  shows "select_single code (update_by_id i upd db) = Some (if id_field t = i then upd t else t)"
proof -
  have same: "\<And>x. token_code (if id_field x = i then upd x else x) = token_code x"
    using assms(1) by simp
  from filter_map_same_code [of "\<lambda>x. if id_field x = i then upd x else x" "\<lambda>k. k = code" db, OF same]
    select_single_filter(1) [OF assms(2)]
  show ?thesis by (simp add: select_single_def update_by_id_def)
qed

lemma local_identity_fingerprint:
  "local_identity (t\<lparr>device_fingerprint := v\<rparr>) = local_identity t"
  by (simp add: local_identity_def)

lemma server_identity_fingerprint:
  "server_identity (t\<lparr>device_fingerprint := v\<rparr>) now = server_identity t now"
  by (simp add: server_identity_def)

text \<open>The sample code is in upper case and has no blank around it.\<close>

lemma select_single_example:
  "token_code t = ''ACE-AAAA-BBBB-CCCC''
     \<Longrightarrow> select_single (token_sent (example_request fp confirm)) [t] = Some t"
  by (simp add: select_single_def example_request_def)

lemma upper_example: "toUpperCase ''ACE-AAAA-BBBB-CCCC'' = ''ACE-AAAA-BBBB-CCCC''"
  by (simp add: toUpperCase_def upper_char_def)

lemma trim_example: "trim ''ACE-AAAA-BBBB-CCCC'' = ''ACE-AAAA-BBBB-CCCC''"
  by code_simp

text \<open>A blank, a line feed, a no-break space (U+00A0) and a byte order mark (U+FEFF) are trimmed.\<close>

lemma trim_white_space_examples:
  "trim (CHR 0x0A # ''ACE-AAAA-BBBB-CCCC '') = ''ACE-AAAA-BBBB-CCCC''"
  "trim (''ACE-AAAA-BBBB-CCCC'' @ [CHR 0xC2, CHR 0xA0]) = ''ACE-AAAA-BBBB-CCCC''"
  "trim ([CHR 0xEF, CHR 0xBB, CHR 0xBF] @ ''ACE-AAAA-BBBB-CCCC'') = ''ACE-AAAA-BBBB-CCCC''"
  "trim ''ACE AAAA'' = ''ACE AAAA''"
  by code_simp+

lemma cached_example:
  "token_code t = ''ACE-AAAA-BBBB-CCCC''
     \<Longrightarrow> cached ''ACE-AAAA-BBBB-CCCC'' (example_client [t]) = Some t"
  by (simp add: getLocalTokens_def example_client_def upper_example trim_example)

lemma sample_codes:
  "token_code example_token = ''ACE-AAAA-BBBB-CCCC''"
  "token_code (token_bound_to fp) = ''ACE-AAAA-BBBB-CCCC''"
  "token_code deactivated_token = ''ACE-AAAA-BBBB-CCCC''"
  "token_code expired_token = ''ACE-AAAA-BBBB-CCCC''"
  "token_code (stamped_token v) = ''ACE-AAAA-BBBB-CCCC''"
  by (simp_all add: example_token_def token_bound_to_def deactivated_token_def expired_token_def
        stamped_token_def)

subsection \<open>Calendar arithmetic\<close>

lemma div_bounds:
  fixes e k :: int
  assumes "0 < k"
  shows "k * (e div k) \<le> e" and "e < k * (e div k) + k"
proof -
  have "k * (e div k) + e mod k = e" by simp
  moreover have "0 \<le> e mod k" "e mod k < k" using assms by simp_all
  ultimately show "k * (e div k) \<le> e" and "e < k * (e div k) + k" by linarith+
qed

lemma div_step:
  fixes x k :: int
  assumes "1 < k"
  shows "(x + 1) div k = x div k + (if (x + 1) mod k = 0 then 1 else 0)"
proof -
  define q r where "q = x div k" and "r = x mod k"
  have x: "x = k * q + r" and r: "0 \<le> r" "r < k"
    using assms by (simp_all add: q_def r_def)
  show ?thesis
  proof (cases "r = k - 1")
    case True
    then have e: "x + 1 = k * (q + 1) + 0" using x by (simp add: algebra_simps)
    have "(x + 1) div k = q + 1" "(x + 1) mod k = 0"
      using assms by (simp_all add: e del: mult_zero_right add_0_right)
    then show ?thesis by (simp add: q_def)
  next
    case False
    then have e: "x + 1 = k * q + (r + 1)" and b: "0 \<le> r + 1" "r + 1 < k"
      using x r by simp_all
    have "(x + 1) div k = q"
      using int_div_pos_eq [OF e b] .
    moreover have "(x + 1) mod k = r + 1"
      using int_mod_pos_eq [OF e b] .
    moreover have "r + 1 \<noteq> 0" using r by simp
    ultimately show ?thesis by (simp add: q_def)
  qed
qed

lemma mod_shift:
  fixes y k n :: int
  shows "(y - k * n) mod k = y mod k"
proof -
  have "y - k * n = y + (- n) * k" by simp
  then show ?thesis by (simp only: mod_mult_self1)
qed

lemma DayFromYear_step: "DayFromYear (y + 1) = DayFromYear y + DaysInYear y"
proof -
  have a: "(y + 1 - 1969) div 4 = (y - 1969) div 4 + (if y mod 4 = 0 then 1 else 0)"
  proof -
    have "(y - 1969 + 1) mod 4 = y mod 4" using mod_shift [of y 4 492] by simp
    with div_step [of 4 "y - 1969"] show ?thesis by (simp add: algebra_simps)
  qed
  have b: "(y + 1 - 1901) div 100 = (y - 1901) div 100 + (if y mod 100 = 0 then 1 else 0)"
  proof -
    have "(y - 1901 + 1) mod 100 = y mod 100" using mod_shift [of y 100 19] by simp
    with div_step [of 100 "y - 1901"] show ?thesis by (simp add: algebra_simps)
  qed
  have c: "(y + 1 - 1601) div 400 = (y - 1601) div 400 + (if y mod 400 = 0 then 1 else 0)"
  proof -
    have "(y - 1601 + 1) mod 400 = y mod 400" using mod_shift [of y 400 4] by simp
    with div_step [of 400 "y - 1601"] show ?thesis by (simp add: algebra_simps)
  qed
  have d: "y mod 100 = 0" if "y mod 400 = 0"
  proof -
    from that have "400 dvd y" by (simp add: mod_eq_0_iff_dvd)
    moreover have "(100::int) dvd 400" by simp
    ultimately have "100 dvd y" by (rule dvd_trans [rotated])
    then show ?thesis by (simp add: mod_eq_0_iff_dvd)
  qed
  have e: "y mod 4 = 0" if "y mod 100 = 0"
  proof -
    from that have "100 dvd y" by (simp add: mod_eq_0_iff_dvd)
    moreover have "(4::int) dvd 100" by simp
    ultimately have "4 dvd y" by (rule dvd_trans [rotated])
    then show ?thesis by (simp add: mod_eq_0_iff_dvd)
  qed
  show ?thesis
    unfolding DayFromYear_def DaysInYear_def leap_year_def a b c using d e
    by (auto split: if_splits)
qed

lemma YearFromDay_bounds:
  "DayFromYear (YearFromDay d) \<le> d \<and> d < DayFromYear (YearFromDay d + 1)"
proof -
  define x where "x = (400 * d) div 146097"
  have x1: "146097 * x \<le> 400 * d" and x2: "400 * d < 146097 * x + 146097"
    using div_bounds [of 146097 "400 * d"] by (simp_all add: x_def)
  have lo: "DayFromYear (1970 + x - 1) \<le> d"
  proof -
    define q4 q100 q400 where "q4 = x div 4" and "q100 = (x + 68) div 100"
      and "q400 = (x + 368) div 400"
    have "400 * q4 \<le> 100 * x" "4 * x + 272 < 400 * q100 + 400" "400 * q400 \<le> x + 368"
      using div_bounds [of 4 x] div_bounds [of 100 "x + 68"] div_bounds [of 400 "x + 368"]
      by (simp_all add: q4_def q100_def q400_def)
    then have "400 * (365 * (x - 1) + q4 - q100 + q400) \<le> 400 * d" using x1 by simp
    then have "365 * (x - 1) + q4 - q100 + q400 \<le> d" by simp
    moreover have "1970 + x - 1 - 1970 = x - 1" "1970 + x - 1 - 1969 = x"
      "1970 + x - 1 - 1901 = x + 68" "1970 + x - 1 - 1601 = x + 368"
      by simp_all
    ultimately show ?thesis by (simp only: DayFromYear_def q4_def q100_def q400_def)
  qed
  have hi: "d < DayFromYear (1970 + x + 2)"
  proof -
    define q4 q100 q400 where "q4 = (x + 3) div 4" and "q100 = (x + 71) div 100"
      and "q400 = (x + 371) div 400"
    have "100 * x + 300 < 400 * q4 + 400" "400 * q100 \<le> 4 * x + 284" "x + 371 < 400 * q400 + 400"
      using div_bounds [of 4 "x + 3"] div_bounds [of 100 "x + 71"] div_bounds [of 400 "x + 371"]
      by (simp_all add: q4_def q100_def q400_def)
    then have "400 * d < 400 * (365 * (x + 2) + q4 - q100 + q400)" using x2 by simp
    then have "d < 365 * (x + 2) + q4 - q100 + q400" by simp
    moreover have "1970 + x + 2 - 1970 = x + 2" "1970 + x + 2 - 1969 = x + 3"
      "1970 + x + 2 - 1901 = x + 71" "1970 + x + 2 - 1601 = x + 371"
      by simp_all
    ultimately show ?thesis by (simp only: DayFromYear_def q4_def q100_def q400_def)
  qed
  have shape: "1970 + x + 1 + 1 = 1970 + x + 2" "1970 + x - 1 + 1 = 1970 + x" by simp_all
  show ?thesis
    unfolding YearFromDay_def Let_def x_def [symmetric]
    using lo hi by (auto simp: shape)
qed

lemma DaysInYear_positive: "0 < DaysInYear y"
  by (simp add: DaysInYear_def)

text \<open>The year of a day is the largest year that starts on or before it.\<close>

lemma DayFromYear_mono: "y \<le> z \<Longrightarrow> DayFromYear y \<le> DayFromYear z"
proof (induction "nat (z - y)" arbitrary: z)
  case 0
  then show ?case by simp
next
  case (Suc n)
  then have "n = nat (z - 1 - y)" "y \<le> z - 1" by linarith+
  from Suc.hyps(1) [OF this] have "DayFromYear y \<le> DayFromYear (z - 1)" .
  moreover have "DayFromYear (z - 1 + 1) = DayFromYear (z - 1) + DaysInYear (z - 1)"
    by (rule DayFromYear_step)
  ultimately show ?case using DaysInYear_positive [of "z - 1"] by simp
qed

lemma YearFromDay_unique:
  assumes "DayFromYear y \<le> d" "d < DayFromYear (y + 1)"
  shows "YearFromDay d = y"
proof -
  let ?z = "YearFromDay d"
  have b: "DayFromYear ?z \<le> d" "d < DayFromYear (?z + 1)"
    using YearFromDay_bounds [of d] by simp_all
  have "\<not> ?z + 1 \<le> y"
    using DayFromYear_mono [of "?z + 1" y] b(2) assms(1) by linarith
  moreover have "\<not> y + 1 \<le> ?z"
    using DayFromYear_mono [of "y + 1" ?z] b(1) assms(2) by linarith
  ultimately show ?thesis by linarith
qed


lemma month_of_day_range: "0 \<le> month_of_day leap d \<and> month_of_day leap d \<le> 11"
  by (simp add: month_of_day_def)

lemma month_values:
  assumes "0 \<le> m" "m \<le> 11"
  shows "m = 0 \<or> m = 1 \<or> m = 2 \<or> m = 3 \<or> m = 4 \<or> m = 5 \<or> m = 6 \<or> m = 7 \<or> m = 8 \<or> m = 9
    \<or> m = 10 \<or> m = (11::int)"
  using assms by arith

lemma month_of_day_fits:
  assumes "0 \<le> d" "d < 365 + leap"
  shows "month_start leap (month_of_day leap d) \<le> d"
    and "d < month_start leap (month_of_day leap d) + month_length leap (month_of_day leap d)"
  using assms by (simp_all add: month_of_day_def month_start_def month_length_def)

lemma month_of_day_found:
  assumes "0 \<le> m" "m \<le> 11" "leap = 0 \<or> leap = 1"
    "month_start leap m \<le> d" "d < month_start leap m + month_length leap m"
  shows "month_of_day leap d = m"
  using month_values [OF assms(1,2)] assms(3-5)
  by (elim disjE) (simp_all add: month_of_day_def month_start_def month_length_def)

lemma month_start_shift:
  assumes "0 \<le> m" "m \<le> 11"
  shows "month_start a m = month_start b m + (if m \<le> 1 then 0 else a - b)"
  using month_values [OF assms]
  by (elim disjE) (simp_all add: month_start_def)

lemma month_end_in_year:
  assumes "0 \<le> m" "m \<le> 11" "leap = 0 \<or> leap = 1"
  shows "month_start leap m + month_length leap m \<le> 365 + leap"
  using month_values [OF assms(1,2)] assms(3)
  by (elim disjE) (simp_all add: month_start_def month_length_def)

lemma DayWithinYear_range:
  "0 \<le> DayWithinYear t \<and> DayWithinYear t < 365 + InLeapYear t"
proof -
  have "DayFromYear (YearFromTime t + 1) = DayFromYear (YearFromTime t) + DaysInYear (YearFromTime t)"
    by (rule DayFromYear_step)
  with YearFromDay_bounds [of "Day t"] show ?thesis
    by (auto simp add: DayWithinYear_def YearFromTime_def InLeapYear_def DaysInYear_def
        split: if_splits)
qed

lemma Day_MakeDate:
  assumes "0 \<le> time" "time < msPerDay"
  shows "Day (MakeDate day time) = day" and "TimeWithinDay (MakeDate day time) = time"
proof -
  have e: "MakeDate day time = msPerDay * day + time" by (simp add: MakeDate_def)
  have p: "0 < msPerDay" by (simp add: msPerDay_def)
  show "Day (MakeDate day time) = day"
    unfolding Day_def using int_div_pos_eq [OF e assms] .
  show "TimeWithinDay (MakeDate day time) = time"
    unfolding TimeWithinDay_def using int_mod_pos_eq [OF e assms] .
qed

lemma TimeWithinDay_range: "0 \<le> TimeWithinDay t \<and> TimeWithinDay t < msPerDay"
  by (simp add: TimeWithinDay_def msPerDay_def)

lemma MakeDate_Day: "MakeDate (Day t) (TimeWithinDay t) = t"
  by (simp add: MakeDate_def Day_def TimeWithinDay_def)


lemma month_end_any:
  assumes "0 \<le> m" "m \<le> 11" "a = 0 \<or> a = 1" "b = 0 \<or> b = 1"
  shows "month_start b m + month_length a m \<le> 365 + b"
  using month_values [OF assms(1,2)] assms(3,4)
  by (elim disjE) (simp_all add: month_start_def month_length_def)

lemma month_start_nonneg:
  assumes "0 \<le> m" "m \<le> 11" "a = 0 \<or> a = 1"
  shows "0 \<le> month_start a m"
  using month_values [OF assms(1,2)] assms(3)
  by (elim disjE) (simp_all add: month_start_def)

lemma InLeapYear_values: "InLeapYear t = 0 \<or> InLeapYear t = 1"
  by (simp add: InLeapYear_def)

lemma MonthFromTime_range: "0 \<le> MonthFromTime t \<and> MonthFromTime t \<le> 11"
  by (simp add: MonthFromTime_def month_of_day_range)

lemma DateFromTime_range:
  "1 \<le> DateFromTime t \<and> DateFromTime t \<le> month_length (InLeapYear t) (MonthFromTime t)"
  using month_of_day_fits [of "DayWithinYear t" "InLeapYear t"] DayWithinYear_range [of t]
  by (simp add: DateFromTime_def MonthFromTime_def)

lemma MakeDay_next_year:
  "MakeDay (YearFromTime t + 1) (MonthFromTime t) (DateFromTime t) = Day t + days_to_next_year t"
proof -
  let ?y = "YearFromTime t" and ?m = "MonthFromTime t"
  let ?b = "if leap_year (?y + 1) then 1 else 0 :: int"
  have m: "0 \<le> ?m" "?m \<le> 11" using MonthFromTime_range [of t] by simp_all
  then have dm: "?m div 12 = 0" "?m mod 12 = ?m" by simp_all
  have e1: "MakeDay (?y + 1) ?m (DateFromTime t)
      = DayFromYear (?y + 1) + month_start ?b ?m + DateFromTime t - 1"
    by (simp only: MakeDay_def Let_def dm add_0_right)
  have e2: "DayFromYear (?y + 1) = DayFromYear ?y + DaysInYear ?y" by (rule DayFromYear_step)
  have e3: "month_start ?b ?m = month_start (InLeapYear t) ?m
      + (if ?m \<le> 1 then 0 else ?b - InLeapYear t)"
    by (rule month_start_shift [OF m])
  have e4: "DateFromTime t = Day t - DayFromYear ?y - month_start (InLeapYear t) ?m + 1"
    by (simp add: DateFromTime_def DayWithinYear_def)
  have e5: "DaysInYear ?y = 365 + InLeapYear t" by (simp add: DaysInYear_def InLeapYear_def)
  have e6: "days_to_next_year t = 365 + (if ?m \<le> 1 then InLeapYear t else ?b)"
    by (simp add: days_to_next_year_def InLeapYear_def)
  show ?thesis unfolding e1 e2 e3 e5 e6 using e4 by simp
qed

lemma Day_plus_days:
  "Day (t + n * msPerDay) = Day t + n" "TimeWithinDay (t + n * msPerDay) = TimeWithinDay t"
  by (simp_all add: Day_def TimeWithinDay_def msPerDay_def)

lemma MakeDate_plus_days: "MakeDate (Day t + n) (TimeWithinDay t) = t + n * msPerDay"
proof -
  have "MakeDate (Day t + n) (TimeWithinDay t) = MakeDate (Day t) (TimeWithinDay t) + n * msPerDay"
    by (simp add: MakeDate_def algebra_simps)
  then show ?thesis by (simp only: MakeDate_Day)
qed

lemma YearFromTime_next_year:
  "YearFromTime (t + days_to_next_year t * msPerDay) = YearFromTime t + 1"
proof -
  let ?y = "YearFromTime t" and ?m = "MonthFromTime t" and ?a = "InLeapYear t"
  let ?b = "if leap_year (?y + 1) then 1 else 0 :: int"
  have m: "0 \<le> ?m" "?m \<le> 11" using MonthFromTime_range [of t] by simp_all
  have b: "?b = 0 \<or> ?b = 1" by simp
  have dm: "?m div 12 = 0" "?m mod 12 = ?m" using m by simp_all
  have day: "Day t + days_to_next_year t
      = DayFromYear (?y + 1) + month_start ?b ?m + DateFromTime t - 1"
    unfolding MakeDay_next_year [symmetric]
    by (simp only: MakeDay_def Let_def dm add_0_right)
  have lo: "DayFromYear (?y + 1) \<le> Day t + days_to_next_year t"
    using month_start_nonneg [OF m b] DateFromTime_range [of t] unfolding day by linarith
  have "DayFromYear (?y + 1 + 1) = DayFromYear (?y + 1) + DaysInYear (?y + 1)"
    by (rule DayFromYear_step)
  also have "DaysInYear (?y + 1) = 365 + ?b" by (simp add: DaysInYear_def)
  finally have hi: "Day t + days_to_next_year t < DayFromYear (?y + 1 + 1)"
    using month_end_any [OF m InLeapYear_values [of t] b] DateFromTime_range [of t]
    unfolding day by linarith
  show ?thesis
    unfolding YearFromTime_def Day_plus_days
    using YearFromDay_unique [OF lo hi] by (simp add: YearFromTime_def)
qed

text \<open>
  \<open>MakeDay\<close> is the day that ECMAScript asks for: the first of the month has the year, the
  month and the day of the month that were given.
\<close>

lemma month_length_positive: "a = 0 \<or> a = 1 \<Longrightarrow> 0 < month_length a m"
  by (auto simp add: month_length_def)

lemma MakeDay_first_of_month:
  "YearFromTime (MakeDate (MakeDay year month 1) 0) = year + month div 12
   \<and> MonthFromTime (MakeDate (MakeDay year month 1) 0) = month mod 12
   \<and> DateFromTime (MakeDate (MakeDay year month 1) 0) = 1"
proof -
  let ?ym = "year + month div 12" and ?mn = "month mod 12"
  let ?b = "if leap_year ?ym then 1 else 0 :: int"
  let ?t = "MakeDate (MakeDay year month 1) 0"
  have m: "0 \<le> ?mn" "?mn \<le> 11" by simp_all
  have b: "?b = 0 \<or> ?b = 1" by simp
  have make: "MakeDay year month 1 = DayFromYear ?ym + month_start ?b ?mn"
    by (simp add: MakeDay_def Let_def)
  have day: "Day ?t = DayFromYear ?ym + month_start ?b ?mn"
    using Day_MakeDate(1) [of 0 "MakeDay year month 1"] by (simp add: make msPerDay_def)
  have lo: "DayFromYear ?ym \<le> Day ?t"
    using month_start_nonneg [OF m b] by (simp add: day)
  have "DayFromYear (?ym + 1) = DayFromYear ?ym + DaysInYear ?ym" by (rule DayFromYear_step)
  also have "DaysInYear ?ym = 365 + ?b" by (simp add: DaysInYear_def)
  finally have hi: "Day ?t < DayFromYear (?ym + 1)"
    using month_end_in_year [OF m b] month_length_positive [OF b, of ?mn] by (simp add: day)
  have y: "YearFromTime ?t = ?ym"
    unfolding YearFromTime_def by (rule YearFromDay_unique [OF lo hi])
  have leap: "InLeapYear ?t = ?b" by (simp only: InLeapYear_def y)
  have within: "DayWithinYear ?t = month_start ?b ?mn"
    by (simp add: DayWithinYear_def y day)
  have mo: "MonthFromTime ?t = ?mn"
    unfolding MonthFromTime_def leap within
    using month_length_positive [OF b, of ?mn] by (intro month_of_day_found [OF m b]) simp_all
  have "DateFromTime ?t = 1"
    unfolding DateFromTime_def mo leap within by simp
  with y mo show ?thesis by simp
qed

text \<open>The local wall-clock time moves by 365 or 366 whole days and lands in the next year.\<close>

lemma setFullYear_next_local:
  "setFullYear_next LocalTZA thisTime =
     UTC LocalTZA (LocalTime LocalTZA thisTime
       + days_to_next_year (LocalTime LocalTZA thisTime) * msPerDay)"
  by (simp only: setFullYear_next_def Let_def MakeDay_next_year MakeDate_plus_days)

lemma setFullYear_next_fixed_offset:
  "setFullYear_next (\<lambda>_ _. k) thisTime = thisTime + days_to_next_year (thisTime + k) * msPerDay"
  by (simp add: setFullYear_next_local UTC_def LocalTime_def)


lemma month_length_leap:
  assumes "m \<noteq> 1"
  shows "month_length a m = month_length b m"
  using assms by (simp add: month_length_def)

lemma calendar_day_next_year:
  assumes "\<not> (MonthFromTime t = 1 \<and> DateFromTime t = 29)"
  shows "MonthFromTime (t + days_to_next_year t * msPerDay) = MonthFromTime t"
    and "DateFromTime (t + days_to_next_year t * msPerDay) = DateFromTime t"
proof -
  let ?y = "YearFromTime t" and ?m = "MonthFromTime t" and ?a = "InLeapYear t"
  let ?b = "if leap_year (?y + 1) then 1 else 0 :: int"
  let ?u = "t + days_to_next_year t * msPerDay"
  have m: "0 \<le> ?m" "?m \<le> 11" using MonthFromTime_range [of t] by simp_all
  have b: "?b = 0 \<or> ?b = 1" by simp
  have dm: "?m div 12 = 0" "?m mod 12 = ?m" using m by simp_all
  have day: "Day t + days_to_next_year t
      = DayFromYear (?y + 1) + month_start ?b ?m + DateFromTime t - 1"
    unfolding MakeDay_next_year [symmetric]
    by (simp only: MakeDay_def Let_def dm add_0_right)
  have leap: "InLeapYear ?u = ?b"
    by (simp only: InLeapYear_def YearFromTime_next_year)
  have within: "DayWithinYear ?u = month_start ?b ?m + DateFromTime t - 1"
    unfolding DayWithinYear_def YearFromTime_next_year Day_plus_days day by simp
  have len: "DateFromTime t \<le> month_length ?b ?m"
  proof (cases "?m = 1")
    case True
    with assms DateFromTime_range [of t] InLeapYear_values [of t] show ?thesis
      by (auto simp add: month_length_def)
  next
    case False
    from month_length_leap [OF this, of ?a ?b] DateFromTime_range [of t] show ?thesis by simp
  qed
  have "month_of_day ?b (month_start ?b ?m + DateFromTime t - 1) = ?m"
    using DateFromTime_range [of t] len by (intro month_of_day_found [OF m b]) simp_all
  then show mo: "MonthFromTime ?u = ?m"
    by (simp only: MonthFromTime_def leap within)
  show "DateFromTime ?u = DateFromTime t"
    unfolding DateFromTime_def [of ?u] mo leap within by simp
qed

text \<open>
  The next year of 3 November 2026 and of noon on 29 February 2024 in UTC; and of 23:30 UTC on
  29 February 2024, which is 1 March 2025 at 23:30 in UTC and, the local date being 1 March
  2024 at 00:30, 28 February 2025 at 23:30 UTC in West Africa Time.
\<close>

lemma setFullYear_next_examples:
  "setFullYear_next utc_zone 1793697781000 = 1825233781000"
  "setFullYear_next utc_zone 1709208000000 = 1740830400000"
  "setFullYear_next utc_zone 1709249400000 = 1740871800000"
  "setFullYear_next west_africa_time 1709249400000 = 1740785400000"
  by code_simp+

text \<open>
  From 3 November 2026 and from 1 March 2024 (00:30) the same date of the next year is 365 days
  on, from 29 February 2024 (23:30) it is 366 days on.
\<close>

lemma days_to_next_year_examples:
  "days_to_next_year 1793697781000 = 365"
  "days_to_next_year 1709249400000 = 366"
  "days_to_next_year 1709253000000 = 365"
  by code_simp+

section \<open>Device binding\<close>

text \<open>
  C1 (as amended). For every active token that the lookup finds and whose \<open>device_fingerprint\<close>
  is a non-empty string \<open>F\<close>, a verification with any other fingerprint is refused with the
  message of a device mismatch, for every value of \<open>confirm_binding\<close>, and neither the table
  nor the cache changes: in the handler of \<^verbatim>\<open>src/server.js\<close> and in \<^verbatim>\<open>verifyLocalToken\<close>.
\<close>

theorem mismatch_on_active_bound_token:
  "(select_single (token_sent req) db = Some row \<and> is_active row
      \<and> device_fingerprint row = Some F \<and> F \<noteq> [] \<and> deviceFingerprint req \<noteq> F
      \<longrightarrow> login_with_token now bindError req db = (json_error 403 msg_locked no_data, db))
   \<and> (cached tok c = Some t \<and> is_active t
      \<and> device_fingerprint t = Some F' \<and> F' \<noteq> [] \<and> G \<noteq> F'
      \<longrightarrow> verifyLocalToken tok G confirm c = (Inl msg_locked_local, c))"
  by (auto simp: login_with_token_def verifyLocalToken_def truthy_def)

theorem mismatch_on_active_bound_token_witness:
  "login_with_token 5000 None (example_request ''F2'' True) [token_bound_to ''F1'']
     = (json_error 403 msg_locked no_data, [token_bound_to ''F1''])
   \<and> verifyLocalToken ''ACE-AAAA-BBBB-CCCC'' ''F2'' True (example_client [token_bound_to ''F1''])
     = (Inl msg_locked_local, example_client [token_bound_to ''F1''])"
proof -
  let ?t = "token_bound_to ''F1''"
  have fields: "is_active ?t" "device_fingerprint ?t = Some ''F1''"
    by (simp_all add: token_bound_to_def example_token_def)
  have other: "deviceFingerprint (example_request ''F2'' True) \<noteq> ''F1''" "''F1'' \<noteq> []" "''F2'' \<noteq> ''F1''"
    by (simp_all add: example_request_def)
  have remote: "select_single (token_sent (example_request ''F2'' True)) [?t] = Some ?t"
    by (rule select_single_example) (rule sample_codes)
  have local: "cached ''ACE-AAAA-BBBB-CCCC'' (example_client [?t]) = Some ?t"
    by (rule cached_example) (rule sample_codes)
  from mismatch_on_active_bound_token [of "example_request ''F2'' True" "[?t]" ?t "''F1''" 5000 None
      "''ACE-AAAA-BBBB-CCCC''" "example_client [?t]" ?t "''F1''" "''F2''" True]
    fields other remote local
  show ?thesis by blast
qed

text \<open>
  C1 as stated fails: a deactivated token bound to \<open>F1\<close> answers another fingerprint with the
  message of deactivation, and a token whose stored fingerprint is the empty string is bound
  anew by another device.
\<close>

theorem mismatch_claim_counterexample:
  "device_fingerprint deactivated_token = Some ''F1''
   \<and> login_with_token 5000 None (example_request ''F2'' False) [deactivated_token]
     = (json_error 403 msg_deactivated no_data, [deactivated_token])
   \<and> msg_deactivated \<noteq> msg_locked
   \<and> verifyLocalToken ''ACE-AAAA-BBBB-CCCC'' ''F2'' False (example_client [deactivated_token])
     = (Inl msg_deactivated_local, example_client [deactivated_token])
   \<and> msg_deactivated_local \<noteq> msg_locked_local
   \<and> device_fingerprint (token_bound_to '''') = Some ''''
   \<and> login_with_token 5000 None (example_request ''F2'' True) [token_bound_to '''']
     = (json_ok (server_identity (token_bound_to '''') 5000), [token_bound_to ''F2''])
   \<and> verifyLocalToken ''ACE-AAAA-BBBB-CCCC'' ''F2'' True (example_client [token_bound_to ''''])
     = (Inr (local_identity (token_bound_to '''')), example_client [token_bound_to ''F2''])"
proof -
  have off: "\<not> is_active deactivated_token" "device_fingerprint deactivated_token = Some ''F1''"
    by (simp_all add: deactivated_token_def token_bound_to_def example_token_def)
  have blank: "is_active (token_bound_to '''')" "device_fingerprint (token_bound_to '''') = Some ''''"
    "id_field (token_bound_to '''') = ''7''"
    "(token_bound_to '''')\<lparr>device_fingerprint := Some ''F2''\<rparr> = token_bound_to ''F2''"
    by (simp_all add: token_bound_to_def example_token_def)
  have r1: "login_with_token 5000 None (example_request ''F2'' False) [deactivated_token]
     = (json_error 403 msg_deactivated no_data, [deactivated_token])"
    using select_single_example [of deactivated_token "''F2''" False] off
    by (simp add: login_with_token_def sample_codes)
  have l1: "verifyLocalToken ''ACE-AAAA-BBBB-CCCC'' ''F2'' False (example_client [deactivated_token])
     = (Inl msg_deactivated_local, example_client [deactivated_token])"
    using cached_example [of deactivated_token] off
    by (simp add: verifyLocalToken_def sample_codes)
  have r2: "login_with_token 5000 None (example_request ''F2'' True) [token_bound_to '''']
     = (json_ok (server_identity (token_bound_to '''') 5000), [token_bound_to ''F2''])"
    using select_single_example [of "token_bound_to ''''" "''F2''" True] blank
    by (simp add: login_with_token_def sample_codes truthy_def update_by_id_def example_request_def)
  have l2: "verifyLocalToken ''ACE-AAAA-BBBB-CCCC'' ''F2'' True (example_client [token_bound_to ''''])
     = (Inr (local_identity (token_bound_to '''')), example_client [token_bound_to ''F2''])"
    using cached_example [of "token_bound_to ''''"] blank
    by (simp add: verifyLocalToken_def sample_codes truthy_def updateLocalToken_def
          getLocalTokens_def example_client_def)
  have m: "msg_deactivated \<noteq> msg_locked" "msg_deactivated_local \<noteq> msg_locked_local"
    by (simp_all add: msg_deactivated_def msg_locked_def msg_deactivated_local_def msg_locked_local_def)
  show ?thesis using off(2) blank(2) r1 l1 r2 l2 m by blast
qed

text \<open>
  C2 (as amended). For every active token that the lookup finds and whose \<open>device_fingerprint\<close>
  is absent or empty, a verification without confirmation answers with the request to bind and
  changes nothing. A verification with confirmation and a non-empty fingerprint \<open>F\<close> succeeds
  and stores \<open>F\<close> (on the server, when the store reports no error), and from then on every
  verification with \<open>F\<close> succeeds and leaves the table, or the cache, as it is.
\<close>

theorem binding_is_confirmed_once:
  "(select_single (token_sent req) db = Some row \<and> is_active row \<and> \<not> truthy (device_fingerprint row)
      \<longrightarrow> (\<not> confirm_binding req \<longrightarrow>
             login_with_token now bindError req db = (json_ok (no_data\<lparr>requires_binding := True\<rparr>), db))
        \<and> (confirm_binding req \<and> bindError = None \<and> deviceFingerprint req \<noteq> [] \<longrightarrow>
             (let db' = update_by_id (id_field row)
                          (\<lambda>r. r\<lparr>device_fingerprint := Some (deviceFingerprint req)\<rparr>) db;
                  row' = row\<lparr>device_fingerprint := Some (deviceFingerprint req)\<rparr>
              in login_with_token now bindError req db = (json_ok (server_identity row now), db')
                 \<and> select_single (token_sent req) db' = Some row'
                 \<and> (\<forall>now' bindError' confirm'.
                      login_with_token now' bindError' (req\<lparr>confirm_binding := confirm'\<rparr>) db'
                        = (json_ok (server_identity row now'), db')))))
   \<and> (cached tok c = Some t \<and> is_active t \<and> \<not> truthy (device_fingerprint t)
      \<longrightarrow> verifyLocalToken tok F False c = (Inl msg_binding_required, c)
        \<and> (F \<noteq> [] \<longrightarrow>
             (let c' = updateLocalToken (token_code t) (\<lambda>x. x\<lparr>device_fingerprint := Some F\<rparr>) c
              in verifyLocalToken tok F True c = (Inr (local_identity t), c')
                 \<and> cached tok c' = Some (t\<lparr>device_fingerprint := Some F\<rparr>)
                 \<and> (\<forall>confirm'. verifyLocalToken tok F confirm' c' = (Inr (local_identity t), c')))))"
proof (intro conjI impI)
  assume h: "select_single (token_sent req) db = Some row \<and> is_active row \<and> \<not> truthy (device_fingerprint row)"
  show "\<not> confirm_binding req \<Longrightarrow>
     login_with_token now bindError req db = (json_ok (no_data\<lparr>requires_binding := True\<rparr>), db)"
    using h by (simp add: login_with_token_def)
  assume g: "confirm_binding req \<and> bindError = None \<and> deviceFingerprint req \<noteq> []"
  let ?upd = "\<lambda>r. r\<lparr>device_fingerprint := Some (deviceFingerprint req)\<rparr>"
  let ?db' = "update_by_id (id_field row) ?upd db"
  have first: "login_with_token now bindError req db = (json_ok (server_identity row now), ?db')"
    using h g by (simp add: login_with_token_def)
  have sel: "select_single (token_sent req) ?db' = Some (?upd row)"
    using select_single_after_update [of ?upd "token_sent req" db row "id_field row"] h by simp
  have later: "login_with_token now' bindError' (req\<lparr>confirm_binding := confirm'\<rparr>) ?db'
        = (json_ok (server_identity row now'), ?db')" for now' bindError' confirm'
    using sel h g by (simp add: login_with_token_def truthy_def server_identity_fingerprint)
  show "let db' = ?db'; row' = row\<lparr>device_fingerprint := Some (deviceFingerprint req)\<rparr>
     in login_with_token now bindError req db = (json_ok (server_identity row now), db')
        \<and> select_single (token_sent req) db' = Some row'
        \<and> (\<forall>now' bindError' confirm'.
              login_with_token now' bindError' (req\<lparr>confirm_binding := confirm'\<rparr>) db'
                = (json_ok (server_identity row now'), db'))"
    using first sel later by (simp add: Let_def)
next
  assume h: "cached tok c = Some t \<and> is_active t \<and> \<not> truthy (device_fingerprint t)"
  show "verifyLocalToken tok F False c = (Inl msg_binding_required, c)"
    using h by (simp add: verifyLocalToken_def)
  assume g: "F \<noteq> []"
  let ?upd = "\<lambda>x. x\<lparr>device_fingerprint := Some F\<rparr>"
  let ?c' = "updateLocalToken (token_code t) ?upd c"
  have first: "verifyLocalToken tok F True c = (Inr (local_identity t), ?c')"
    using h by (simp add: verifyLocalToken_def)
  have sel: "cached tok ?c' = Some (?upd t)"
    using cached_after_update [of ?upd tok c t "token_code t"] h by simp
  have later: "verifyLocalToken tok F confirm' ?c' = (Inr (local_identity t), ?c')" for confirm'
    using sel h g by (simp add: verifyLocalToken_def truthy_def local_identity_fingerprint)
  show "let c' = ?c'
     in verifyLocalToken tok F True c = (Inr (local_identity t), c')
        \<and> cached tok c' = Some (t\<lparr>device_fingerprint := Some F\<rparr>)
        \<and> (\<forall>confirm'. verifyLocalToken tok F confirm' c' = (Inr (local_identity t), c'))"
    using first sel later by (simp add: Let_def)
qed

theorem binding_is_confirmed_once_witness:
  "login_with_token 5000 None (example_request ''F1'' False) [example_token]
     = (json_ok (no_data\<lparr>requires_binding := True\<rparr>), [example_token])
   \<and> login_with_token 5000 None (example_request ''F1'' True) [example_token]
     = (json_ok (server_identity example_token 5000), [token_bound_to ''F1''])
   \<and> login_with_token 6000 None (example_request ''F1'' False) [token_bound_to ''F1'']
     = (json_ok (server_identity example_token 6000), [token_bound_to ''F1''])
   \<and> verifyLocalToken ''ACE-AAAA-BBBB-CCCC'' ''F1'' False (example_client [example_token])
     = (Inl msg_binding_required, example_client [example_token])
   \<and> verifyLocalToken ''ACE-AAAA-BBBB-CCCC'' ''F1'' True (example_client [example_token])
     = (Inr (local_identity example_token), example_client [token_bound_to ''F1''])
   \<and> verifyLocalToken ''ACE-AAAA-BBBB-CCCC'' ''F1'' False (example_client [token_bound_to ''F1''])
     = (Inr (local_identity example_token), example_client [token_bound_to ''F1''])"
proof -
  have fields: "is_active example_token" "\<not> truthy (device_fingerprint example_token)"
    by (simp_all add: example_token_def truthy_def)
  have remote: "select_single (token_sent (example_request ''F1'' b)) [example_token] = Some example_token" for b
    by (rule select_single_example) (rule sample_codes)
  have local: "cached ''ACE-AAAA-BBBB-CCCC'' (example_client [example_token]) = Some example_token"
    by (rule cached_example) (rule sample_codes)
  have req: "\<not> confirm_binding (example_request ''F1'' False)" "confirm_binding (example_request ''F1'' True)"
    "deviceFingerprint (example_request ''F1'' True) \<noteq> []"
    "(example_request ''F1'' True)\<lparr>confirm_binding := False\<rparr> = example_request ''F1'' False"
    by (simp_all add: example_request_def)
  have db': "update_by_id (id_field example_token)
        (\<lambda>r. r\<lparr>device_fingerprint := Some (deviceFingerprint (example_request ''F1'' True))\<rparr>) [example_token]
      = [token_bound_to ''F1'']"
    by (simp add: update_by_id_def token_bound_to_def example_request_def)
  have c': "updateLocalToken (token_code example_token) (\<lambda>x. x\<lparr>device_fingerprint := Some ''F1''\<rparr>)
        (example_client [example_token]) = example_client [token_bound_to ''F1'']"
    by (simp add: updateLocalToken_def getLocalTokens_def example_client_def token_bound_to_def)
  note thm1 = binding_is_confirmed_once [of "example_request ''F1'' False" "[example_token]" example_token
      5000 None "''ACE-AAAA-BBBB-CCCC''" "example_client [example_token]" example_token "''F1''"]
  note thm2 = binding_is_confirmed_once [of "example_request ''F1'' True" "[example_token]" example_token
      5000 None "''ACE-AAAA-BBBB-CCCC''" "example_client [example_token]" example_token "''F1''"]
  have a: "login_with_token 5000 None (example_request ''F1'' False) [example_token]
     = (json_ok (no_data\<lparr>requires_binding := True\<rparr>), [example_token])"
    using thm1 fields remote req(1) by blast
  have bound: "login_with_token 5000 None (example_request ''F1'' True) [example_token]
       = (json_ok (server_identity example_token 5000), [token_bound_to ''F1''])
     \<and> (\<forall>now' bindError' confirm'.
          login_with_token now' bindError' ((example_request ''F1'' True)\<lparr>confirm_binding := confirm'\<rparr>)
            [token_bound_to ''F1'']
          = (json_ok (server_identity example_token now'), [token_bound_to ''F1'']))"
    using thm2 fields remote [of True] req(2,3) db' by (simp add: Let_def)
  then have b: "login_with_token 5000 None (example_request ''F1'' True) [example_token]
     = (json_ok (server_identity example_token 5000), [token_bound_to ''F1''])"
    "login_with_token 6000 None ((example_request ''F1'' True)\<lparr>confirm_binding := False\<rparr>)
        [token_bound_to ''F1'']
     = (json_ok (server_identity example_token 6000), [token_bound_to ''F1''])"
    by blast+
  have kept: "verifyLocalToken ''ACE-AAAA-BBBB-CCCC'' ''F1'' False (example_client [example_token])
       = (Inl msg_binding_required, example_client [example_token])
     \<and> verifyLocalToken ''ACE-AAAA-BBBB-CCCC'' ''F1'' True (example_client [example_token])
       = (Inr (local_identity example_token), example_client [token_bound_to ''F1''])
     \<and> (\<forall>confirm'. verifyLocalToken ''ACE-AAAA-BBBB-CCCC'' ''F1'' confirm'
            (example_client [token_bound_to ''F1''])
          = (Inr (local_identity example_token), example_client [token_bound_to ''F1'']))"
    using thm2 fields local c' by (simp add: Let_def)
  then have c: "verifyLocalToken ''ACE-AAAA-BBBB-CCCC'' ''F1'' False (example_client [example_token])
     = (Inl msg_binding_required, example_client [example_token])"
    "verifyLocalToken ''ACE-AAAA-BBBB-CCCC'' ''F1'' True (example_client [example_token])
     = (Inr (local_identity example_token), example_client [token_bound_to ''F1''])"
    "verifyLocalToken ''ACE-AAAA-BBBB-CCCC'' ''F1'' False (example_client [token_bound_to ''F1''])
     = (Inr (local_identity example_token), example_client [token_bound_to ''F1''])"
    by blast+
  show ?thesis using a b c req(4) by simp
qed

text \<open>
  C2 as stated fails for the empty fingerprint: the confirmed binding succeeds and stores it,
  and the next verification with the same fingerprint is asked to bind again. On the server a
  confirmed binding also fails, with status 500, when the store reports an error.
\<close>

theorem binding_claim_counterexample:
  "login_with_token 5000 None (example_request '''' True) [example_token]
     = (json_ok (server_identity example_token 5000), [token_bound_to ''''])
   \<and> login_with_token 6000 None (example_request '''' False) [token_bound_to '''']
     = (json_ok (no_data\<lparr>requires_binding := True\<rparr>), [token_bound_to ''''])
   \<and> verifyLocalToken ''ACE-AAAA-BBBB-CCCC'' '''' True (example_client [example_token])
     = (Inr (local_identity example_token), example_client [token_bound_to ''''])
   \<and> verifyLocalToken ''ACE-AAAA-BBBB-CCCC'' '''' False (example_client [token_bound_to ''''])
     = (Inl msg_binding_required, example_client [token_bound_to ''''])
   \<and> login_with_token 5000 (Some ''store down'') (example_request ''F1'' True) [example_token]
     = (json_error 500 ''store down'' no_data, [example_token])"
proof -
  have fields: "is_active example_token" "device_fingerprint example_token = None"
    "is_active (token_bound_to '''')" "device_fingerprint (token_bound_to '''') = Some ''''"
    "example_token\<lparr>device_fingerprint := Some ''''\<rparr> = token_bound_to ''''"
    by (simp_all add: example_token_def token_bound_to_def)
  have r1: "login_with_token 5000 None (example_request '''' True) [example_token]
     = (json_ok (server_identity example_token 5000), [token_bound_to ''''])"
    using select_single_example [of example_token "''''" True] fields
    by (simp add: login_with_token_def sample_codes truthy_def update_by_id_def example_request_def)
  have r2: "login_with_token 6000 None (example_request '''' False) [token_bound_to '''']
     = (json_ok (no_data\<lparr>requires_binding := True\<rparr>), [token_bound_to ''''])"
    using select_single_example [of "token_bound_to ''''" "''''" False] fields
    by (simp add: login_with_token_def sample_codes truthy_def example_request_def)
  have l1: "verifyLocalToken ''ACE-AAAA-BBBB-CCCC'' '''' True (example_client [example_token])
     = (Inr (local_identity example_token), example_client [token_bound_to ''''])"
    using cached_example [of example_token] fields
    by (simp add: verifyLocalToken_def sample_codes truthy_def updateLocalToken_def
          getLocalTokens_def example_client_def)
  have l2: "verifyLocalToken ''ACE-AAAA-BBBB-CCCC'' '''' False (example_client [token_bound_to ''''])
     = (Inl msg_binding_required, example_client [token_bound_to ''''])"
    using cached_example [of "token_bound_to ''''"] fields
    by (simp add: verifyLocalToken_def sample_codes truthy_def)
  have r3: "login_with_token 5000 (Some ''store down'') (example_request ''F1'' True) [example_token]
     = (json_error 500 ''store down'' no_data, [example_token])"
    using select_single_example [of example_token "''F1''" True] fields
    by (simp add: login_with_token_def sample_codes truthy_def example_request_def)
  show ?thesis using r1 r2 l1 l2 r3 by blast
qed

section \<open>Expiry and deactivation\<close>

text \<open>
  C3, evaluated where it fails. The token is active, bound to \<open>F1\<close>, and its \<open>expires_at\<close>
  (1000) lies before the time of the request (2000). The handler of \<^verbatim>\<open>src/server.js\<close> answers
  the request of \<open>F1\<close> with status 200 and the identity, zero days remaining, and
  \<^verbatim>\<open>verifyLocalToken\<close> returns the identity too: neither has a branch that reads \<open>expires_at\<close> to
  refuse.
\<close>

theorem expired_token_is_accepted:
  "expires_at expired_token = Some 1000
   \<and> login_with_token 2000 None (example_request ''F1'' False) [expired_token]
     = (json_ok (server_identity expired_token 2000), [expired_token])
   \<and> status (json_ok (server_identity expired_token 2000)) = 200
   \<and> remainingDays (server_identity expired_token 2000) = Some 0
   \<and> expiryMessage (server_identity expired_token 2000) = Some ''Lifetime''
   \<and> verifyLocalToken ''ACE-AAAA-BBBB-CCCC'' ''F1'' False (example_client [expired_token])
     = (Inr (local_identity expired_token), example_client [expired_token])"
proof -
  have fields: "is_active expired_token" "device_fingerprint expired_token = Some ''F1''"
    "expires_at expired_token = Some 1000"
    by (simp_all add: expired_token_def token_bound_to_def example_token_def)
  have "login_with_token 2000 None (example_request ''F1'' False) [expired_token]
     = (json_ok (server_identity expired_token 2000), [expired_token])"
    using select_single_example [of expired_token "''F1''" False] fields
    by (simp add: login_with_token_def truthy_def example_request_def sample_codes)
  moreover have "remainingDays (server_identity expired_token 2000) = Some 0"
    "expiryMessage (server_identity expired_token 2000) = Some ''Lifetime''"
    using fields(3) by (simp_all add: server_identity_def getRemainingDays_def ms_per_day_def Let_def)
  moreover have "verifyLocalToken ''ACE-AAAA-BBBB-CCCC'' ''F1'' False (example_client [expired_token])
     = (Inr (local_identity expired_token), example_client [expired_token])"
    using cached_example [of expired_token] fields
    by (simp add: verifyLocalToken_def truthy_def sample_codes)
  ultimately show ?thesis using fields(3) by (simp add: json_ok_def)
qed

text \<open>
  C4. A token that the lookup finds and that is not active is refused with the message of
  deactivation, whatever the fingerprint, the confirmation, the stored fingerprint and the expiry
  are, and nothing changes: in the handler of \<^verbatim>\<open>src/server.js\<close> and in \<^verbatim>\<open>verifyLocalToken\<close>.
\<close>

theorem inactive_token_is_refused:
  "(select_single (token_sent req) db = Some row \<and> \<not> is_active row
      \<longrightarrow> login_with_token now bindError req db = (json_error 403 msg_deactivated no_data, db))
   \<and> (cached tok c = Some t \<and> \<not> is_active t
      \<longrightarrow> verifyLocalToken tok fp confirm c = (Inl msg_deactivated_local, c))"
  by (simp add: login_with_token_def verifyLocalToken_def)

theorem inactive_token_is_refused_witness:
  "\<not> is_active deactivated_token
   \<and> login_with_token 5000 None (example_request ''F1'' True) [deactivated_token]
     = (json_error 403 msg_deactivated no_data, [deactivated_token])
   \<and> status (json_error 403 msg_deactivated no_data :: login_data response) = 403
   \<and> verifyLocalToken ''ACE-AAAA-BBBB-CCCC'' ''F1'' True (example_client [deactivated_token])
     = (Inl msg_deactivated_local, example_client [deactivated_token])"
proof -
  have off: "\<not> is_active deactivated_token"
    by (simp add: deactivated_token_def)
  have remote: "select_single (token_sent (example_request ''F1'' True)) [deactivated_token]
      = Some deactivated_token"
    by (rule select_single_example) (rule sample_codes)
  have local: "cached ''ACE-AAAA-BBBB-CCCC'' (example_client [deactivated_token]) = Some deactivated_token"
    by (rule cached_example) (rule sample_codes)
  have st: "status (json_error 403 msg_deactivated no_data :: login_data response) = 403"
    by (simp add: json_error_def)
  from inactive_token_is_refused [of "example_request ''F1'' True" "[deactivated_token]"
      deactivated_token 5000 None "''ACE-AAAA-BBBB-CCCC''" "example_client [deactivated_token]"
      deactivated_token "''F1''" True] off remote local st
  show ?thesis by blast
qed

section \<open>What a binding writes\<close>

text \<open>
  C5 (as amended). When a request with confirmation binds an active token whose
  \<open>device_fingerprint\<close> is absent or empty and the store reports no error, the handler of
  \<^verbatim>\<open>src/unnamed/part_002\<close> writes three columns of the row in one update: the fingerprint of the
  request, \<open>bound_at\<close> (the second reading of the clock) and \<open>expires_at\<close>, which is the first
  reading of the clock moved by \<^verbatim>\<open>setFullYear\<close> to the next year, in whatever time zone the
  server runs. That expiry is the local time 365 or 366 days on (366 when a 29 February lies
  in between): its local year is the next one, its time of day is the same, and so are its month
  and day of the month unless the local date is a 29 February. The handler of \<^verbatim>\<open>src/server.js\<close>
  writes the fingerprint only, and \<open>bound_at\<close> and \<open>expires_at\<close> of the row stay as they were.
\<close>

theorem binding_update_of_each_handler:
  "select_single (token_sent req) db = Some row \<and> is_active row \<and> \<not> truthy (device_fingerprint row)
     \<and> confirm_binding req
   \<longrightarrow> snd (login_with_token_part_002 LocalTZA clk None req db)
         = update_by_id (id_field row)
             (\<lambda>r. r\<lparr>device_fingerprint := Some (deviceFingerprint req),
                    bound_at := Some (clk 1),
                    expires_at := Some (setFullYear_next LocalTZA (clk 0))\<rparr>) db
       \<and> status (fst (login_with_token_part_002 LocalTZA clk None req db)) = 200
       \<and> select_single (token_sent req) (snd (login_with_token_part_002 LocalTZA clk None req db))
         = Some (row\<lparr>device_fingerprint := Some (deviceFingerprint req),
                     bound_at := Some (clk 1),
                     expires_at := Some (setFullYear_next LocalTZA (clk 0))\<rparr>)
       \<and> (let t = LocalTime LocalTZA (clk 0); u = t + days_to_next_year t * msPerDay
          in setFullYear_next LocalTZA (clk 0) = UTC LocalTZA u
             \<and> YearFromTime u = YearFromTime t + 1
             \<and> TimeWithinDay u = TimeWithinDay t
             \<and> (MonthFromTime t = 1 \<and> DateFromTime t = 29
                \<or> MonthFromTime u = MonthFromTime t \<and> DateFromTime u = DateFromTime t))
       \<and> snd (login_with_token now None req db)
         = update_by_id (id_field row) (\<lambda>r. r\<lparr>device_fingerprint := Some (deviceFingerprint req)\<rparr>) db
       \<and> status (fst (login_with_token now None req db)) = 200
       \<and> select_single (token_sent req) (snd (login_with_token now None req db))
         = Some (row\<lparr>device_fingerprint := Some (deviceFingerprint req)\<rparr>)
       \<and> map bound_at (snd (login_with_token now None req db)) = map bound_at db
       \<and> map expires_at (snd (login_with_token now None req db)) = map expires_at db"
proof
  assume h: "select_single (token_sent req) db = Some row \<and> is_active row
      \<and> \<not> truthy (device_fingerprint row) \<and> confirm_binding req"
  let ?three = "\<lambda>r. r\<lparr>device_fingerprint := Some (deviceFingerprint req),
                    bound_at := Some (clk 1),
                    expires_at := Some (setFullYear_next LocalTZA (clk 0))\<rparr>"
  let ?one = "\<lambda>r. r\<lparr>device_fingerprint := Some (deviceFingerprint req)\<rparr>"
  let ?t = "LocalTime LocalTZA (clk 0)"
  let ?u = "?t + days_to_next_year ?t * msPerDay"
  have p: "snd (login_with_token_part_002 LocalTZA clk None req db) = update_by_id (id_field row) ?three db"
    "status (fst (login_with_token_part_002 LocalTZA clk None req db)) = 200"
    using h by (simp_all add: login_with_token_part_002_def Let_def json_ok_def)
  have s: "snd (login_with_token now None req db) = update_by_id (id_field row) ?one db"
    "status (fst (login_with_token now None req db)) = 200"
    using h by (simp_all add: login_with_token_def json_ok_def)
  have sel3: "select_single (token_sent req) (update_by_id (id_field row) ?three db) = Some (?three row)"
    using select_single_after_update [of ?three "token_sent req" db row "id_field row"] h by simp
  have sel1: "select_single (token_sent req) (update_by_id (id_field row) ?one db) = Some (?one row)"
    using select_single_after_update [of ?one "token_sent req" db row "id_field row"] h by simp
  have frame: "map bound_at (update_by_id (id_field row) ?one db) = map bound_at db"
    "map expires_at (update_by_id (id_field row) ?one db) = map expires_at db"
    by (simp_all add: update_by_id_def comp_def cong: map_cong)
  have year: "setFullYear_next LocalTZA (clk 0) = UTC LocalTZA ?u"
    "YearFromTime ?u = YearFromTime ?t + 1" "TimeWithinDay ?u = TimeWithinDay ?t"
    by (rule setFullYear_next_local, rule YearFromTime_next_year, rule Day_plus_days(2))
  have date: "MonthFromTime ?t = 1 \<and> DateFromTime ?t = 29
      \<or> MonthFromTime ?u = MonthFromTime ?t \<and> DateFromTime ?u = DateFromTime ?t"
    using calendar_day_next_year [of ?t] by blast
  show "snd (login_with_token_part_002 LocalTZA clk None req db) = update_by_id (id_field row) ?three db
       \<and> status (fst (login_with_token_part_002 LocalTZA clk None req db)) = 200
       \<and> select_single (token_sent req) (snd (login_with_token_part_002 LocalTZA clk None req db))
         = Some (?three row)
       \<and> (let t = LocalTime LocalTZA (clk 0); u = t + days_to_next_year t * msPerDay
          in setFullYear_next LocalTZA (clk 0) = UTC LocalTZA u
             \<and> YearFromTime u = YearFromTime t + 1
             \<and> TimeWithinDay u = TimeWithinDay t
             \<and> (MonthFromTime t = 1 \<and> DateFromTime t = 29
                \<or> MonthFromTime u = MonthFromTime t \<and> DateFromTime u = DateFromTime t))
       \<and> snd (login_with_token now None req db) = update_by_id (id_field row) ?one db
       \<and> status (fst (login_with_token now None req db)) = 200
       \<and> select_single (token_sent req) (snd (login_with_token now None req db)) = Some (?one row)
       \<and> map bound_at (snd (login_with_token now None req db)) = map bound_at db
       \<and> map expires_at (snd (login_with_token now None req db)) = map expires_at db"
    unfolding Let_def using p s sel3 sel1 frame year date by simp
qed

theorem binding_update_of_each_handler_witness:
  "snd (login_with_token_part_002 utc_zone example_clock None (example_request ''F1'' True)
          [example_token])
     = [example_token\<lparr>device_fingerprint := Some ''F1'', bound_at := Some 1793697781001,
                      expires_at := Some 1825233781000\<rparr>]
   \<and> snd (login_with_token_part_002 utc_zone leap_day_clock None (example_request ''F1'' True)
          [example_token])
     = [example_token\<lparr>device_fingerprint := Some ''F1'', bound_at := Some 1709249400001,
                      expires_at := Some 1740871800000\<rparr>]
   \<and> snd (login_with_token_part_002 west_africa_time leap_day_clock None
          (example_request ''F1'' True) [example_token])
     = [example_token\<lparr>device_fingerprint := Some ''F1'', bound_at := Some 1709249400001,
                      expires_at := Some 1740785400000\<rparr>]
   \<and> 1740871800000 = 1709249400000 + 366 * msPerDay
   \<and> 1740785400000 = 1709249400000 + 365 * msPerDay
   \<and> snd (login_with_token 5000 None (example_request ''F1'' True) [example_token])
     = [token_bound_to ''F1'']"
proof -
  have fields: "is_active example_token" "\<not> truthy (device_fingerprint example_token)"
    by (simp_all add: example_token_def truthy_def)
  have remote: "select_single (token_sent (example_request ''F1'' True)) [example_token] = Some example_token"
    by (rule select_single_example) (rule sample_codes)
  have req: "confirm_binding (example_request ''F1'' True)"
    "deviceFingerprint (example_request ''F1'' True) = ''F1''"
    by (simp_all add: example_request_def)
  have clk: "example_clock 0 = 1793697781000" "example_clock (Suc 0) = 1793697781001"
    "leap_day_clock 0 = 1709249400000" "leap_day_clock (Suc 0) = 1709249400001"
    by (simp_all add: example_clock_def leap_day_clock_def)
  have written: "snd (login_with_token_part_002 z c None (example_request ''F1'' True) [example_token])
         = update_by_id (id_field example_token)
             (\<lambda>r. r\<lparr>device_fingerprint := Some (deviceFingerprint (example_request ''F1'' True)),
                    bound_at := Some (c 1),
                    expires_at := Some (setFullYear_next z (c 0))\<rparr>) [example_token]"
    "setFullYear_next z (c 0)
       = UTC z (LocalTime z (c 0) + days_to_next_year (LocalTime z (c 0)) * msPerDay)"
    "snd (login_with_token 5000 None (example_request ''F1'' True) [example_token])
         = update_by_id (id_field example_token)
             (\<lambda>r. r\<lparr>device_fingerprint := Some (deviceFingerprint (example_request ''F1'' True))\<rparr>)
             [example_token]" for z c
    using binding_update_of_each_handler [of "example_request ''F1'' True" "[example_token]"
        example_token z c 5000, unfolded Let_def] fields remote req(1)
    by blast+
  have expiry: "setFullYear_next utc_zone 1793697781000 = 1825233781000"
    "setFullYear_next utc_zone 1709249400000 = 1740871800000"
    "setFullYear_next west_africa_time 1709249400000 = 1740785400000"
    using written(2) [of utc_zone example_clock] written(2) [of utc_zone leap_day_clock]
      written(2) [of west_africa_time leap_day_clock]
    by (simp_all add: clk days_to_next_year_examples UTC_def LocalTime_def utc_zone_def
          west_africa_time_def msPerDay_def)
  show ?thesis
    using written(1) [of utc_zone example_clock] written(1) [of utc_zone leap_day_clock]
      written(1) [of west_africa_time leap_day_clock] written(3)
    by (simp add: update_by_id_def req(2) clk expiry token_bound_to_def msPerDay_def)
qed

text \<open>
  C5 as stated fails on \<^verbatim>\<open>src/server.js\<close>: after the confirmed binding of the sample token the
  row has the fingerprint, and neither a time of binding nor an expiry.
\<close>

theorem binding_sets_three_fields_counterexample:
  "login_with_token 5000 None (example_request ''F1'' True) [example_token]
     = (json_ok (server_identity example_token 5000), [token_bound_to ''F1''])
   \<and> device_fingerprint (token_bound_to ''F1'') = Some ''F1''
   \<and> bound_at (token_bound_to ''F1'') = None
   \<and> expires_at (token_bound_to ''F1'') = None"
proof -
  have fields: "is_active example_token" "device_fingerprint example_token = None"
    by (simp_all add: example_token_def)
  have "login_with_token 5000 None (example_request ''F1'' True) [example_token]
     = (json_ok (server_identity example_token 5000), [token_bound_to ''F1''])"
    using select_single_example [of example_token "''F1''" True] fields
    by (simp add: login_with_token_def truthy_def example_request_def update_by_id_def
          sample_codes token_bound_to_def)
  then show ?thesis by (simp add: token_bound_to_def example_token_def)
qed

text \<open>
  The handler of \<^verbatim>\<open>src/unnamed/part_002\<close> never compares fingerprints: a request from another
  device for an active token with a stored fingerprint is answered with status 200.
\<close>

lemma part_002_accepts_another_device:
  "select_single (token_sent req) db = Some row \<Longrightarrow> is_active row
     \<Longrightarrow> truthy (device_fingerprint row)
     \<Longrightarrow> login_with_token_part_002 LocalTZA clk updateError req db
           = (json_ok (Summary (summary_of row (clk 0))), db)"
  by (simp add: login_with_token_part_002_def)

section \<open>Online first, then the cache\<close>

text \<open>
  C6 (as amended). In \<^verbatim>\<open>loginWithToken\<close> of \<^verbatim>\<open>src/services/auth.ts\<close>, once the device fingerprint
  is known: a reply that asks for a binding, and any error whose message is
  \<^verbatim>\<open>BINDING_REQUIRED\<close>, reaches the caller as that error and nothing is stored; every other
  failure of the remote attempt, the refusals of the server (unknown code, deactivated, locked
  to another device) among them, is dropped and the result is that of the local check of the
  cache.
\<close>

theorem remote_failure_falls_back_to_cache:
  "device_identity env = Inr fp \<longrightarrow>
     (remote_attempt env = Inr res \<and> requires_binding res
        \<longrightarrow> loginWithToken env tok confirm c = (Inl msg_binding_required, c))
     \<and> (remote_attempt env = Inl msg_binding_required
        \<longrightarrow> loginWithToken env tok confirm c = (Inl msg_binding_required, c))
     \<and> (remote_attempt env = Inl message \<and> message \<noteq> msg_binding_required
        \<longrightarrow> loginWithToken env tok confirm c = local_login tok fp confirm c)
     \<and> (navigator_onLine env \<and> network env = InTime (Resolved (json_error code refusal no_data))
          \<and> \<not> (200 \<le> code \<and> code \<le> 299) \<and> refusal \<noteq> [] \<and> refusal \<noteq> msg_binding_required
        \<longrightarrow> loginWithToken env tok confirm c = local_login tok fp confirm c)"
  by (auto simp: loginWithToken_def FORCE_OFFLINE_def Let_def withTimeout_def apiRequest_def
        json_error_def or_else_def)

theorem remote_failure_falls_back_to_cache_witness:
  "loginWithToken (example_environment ''F1'' (json_ok (no_data\<lparr>requires_binding := True\<rparr>)))
      ''ACE-AAAA-BBBB-CCCC'' False (example_client [])
     = (Inl msg_binding_required, example_client [])
   \<and> loginWithToken (example_environment ''F2'' (json_error 403 msg_locked no_data))
      ''ACE-AAAA-BBBB-CCCC'' False (example_client [token_bound_to ''F1''])
     = local_login ''ACE-AAAA-BBBB-CCCC'' ''F2'' False (example_client [token_bound_to ''F1''])
   \<and> local_login ''ACE-AAAA-BBBB-CCCC'' ''F2'' False (example_client [token_bound_to ''F1''])
     = (Inl msg_locked_local, example_client [token_bound_to ''F1''])"
proof -
  let ?ask = "example_environment ''F1'' (json_ok (no_data\<lparr>requires_binding := True\<rparr>))"
  let ?no = "example_environment ''F2'' (json_error 403 msg_locked no_data)"
  have dev: "device_identity ?ask = Inr ''F1''" "device_identity ?no = Inr ''F2''"
    by (simp_all add: example_environment_def withTimeout_def)
  have ask: "remote_attempt ?ask = Inr (no_data\<lparr>requires_binding := True\<rparr>)"
    "requires_binding (no_data\<lparr>requires_binding := True\<rparr>)"
    by (simp_all add: example_environment_def withTimeout_def apiRequest_def FORCE_OFFLINE_def json_ok_def)
  have no: "navigator_onLine ?no" "network ?no = InTime (Resolved (json_error 403 msg_locked no_data))"
    "\<not> (200 \<le> (403::nat) \<and> (403::nat) \<le> 299)" "msg_locked \<noteq> []" "msg_locked \<noteq> msg_binding_required"
    by (simp_all add: example_environment_def msg_locked_def msg_binding_required_def)
  have a: "loginWithToken ?ask ''ACE-AAAA-BBBB-CCCC'' False (example_client [])
     = (Inl msg_binding_required, example_client [])"
    using remote_failure_falls_back_to_cache [of ?ask "''F1''" "no_data\<lparr>requires_binding := True\<rparr>"
        "''ACE-AAAA-BBBB-CCCC''" False "example_client []"] dev(1) ask
    by blast
  have b: "loginWithToken ?no ''ACE-AAAA-BBBB-CCCC'' False (example_client [token_bound_to ''F1''])
     = local_login ''ACE-AAAA-BBBB-CCCC'' ''F2'' False (example_client [token_bound_to ''F1''])"
    using remote_failure_falls_back_to_cache [of ?no "''F2''" _ "''ACE-AAAA-BBBB-CCCC''" False
        "example_client [token_bound_to ''F1'']" _ 403 msg_locked] dev(2) no
    by blast
  have fields: "is_active (token_bound_to ''F1'')" "device_fingerprint (token_bound_to ''F1'') = Some ''F1''"
    by (simp_all add: token_bound_to_def example_token_def)
  have c: "local_login ''ACE-AAAA-BBBB-CCCC'' ''F2'' False (example_client [token_bound_to ''F1''])
     = (Inl msg_locked_local, example_client [token_bound_to ''F1''])"
    using cached_example [of "token_bound_to ''F1''"] fields
    by (simp add: local_login_def verifyLocalToken_def truthy_def sample_codes)
  show ?thesis using a b c by blast
qed

text \<open>
  C6 as stated fails: the server refuses the deactivated token with status 403, and the caller
  of \<^verbatim>\<open>loginWithToken\<close> is logged in all the same, from the entry of the cache.
\<close>

theorem remote_refusal_counterexample:
  "fst (login_with_token 5000 None (example_request ''F1'' False) [deactivated_token])
     = json_error 403 msg_deactivated no_data
   \<and> fst (loginWithToken (example_environment ''F1'' (json_error 403 msg_deactivated no_data))
            ''ACE-AAAA-BBBB-CCCC'' False (example_client [token_bound_to ''F1'']))
     = Inr (local_identity (token_bound_to ''F1''))"
proof -
  have off: "\<not> is_active deactivated_token"
    by (simp add: deactivated_token_def)
  have r: "fst (login_with_token 5000 None (example_request ''F1'' False) [deactivated_token])
     = json_error 403 msg_deactivated no_data"
    using select_single_example [of deactivated_token "''F1''" False] off
    by (simp add: login_with_token_def sample_codes)
  have fields: "is_active (token_bound_to ''F1'')" "device_fingerprint (token_bound_to ''F1'') = Some ''F1''"
    by (simp_all add: token_bound_to_def example_token_def)
  have m: "msg_deactivated \<noteq> msg_binding_required" "msg_deactivated \<noteq> []"
    by (simp_all add: msg_deactivated_def msg_binding_required_def)
  have l: "fst (loginWithToken (example_environment ''F1'' (json_error 403 msg_deactivated no_data))
            ''ACE-AAAA-BBBB-CCCC'' False (example_client [token_bound_to ''F1'']))
     = Inr (local_identity (token_bound_to ''F1''))"
    using cached_example [of "token_bound_to ''F1''"] fields m
    by (simp add: loginWithToken_def FORCE_OFFLINE_def Let_def withTimeout_def apiRequest_def
          json_error_def or_else_def example_environment_def local_login_def verifyLocalToken_def
          truthy_def sample_codes)
  show ?thesis using r l by blast
qed

text \<open>
  The \<^verbatim>\<open>catch\<close> of \<^verbatim>\<open>loginWithToken\<close> in \<^verbatim>\<open>src/unnamed/part_000\<close> has no test: there the request to
  bind does not reach the caller either, and the result is that of the local check.
\<close>

lemma part_000_drops_binding_request:
  "device_identity env = Inr fp \<Longrightarrow> remote_attempt env = Inr res \<Longrightarrow> requires_binding res
     \<Longrightarrow> loginWithToken_part_000 env tok confirm c = local_login_part_000 tok fp confirm c"
  by (simp add: loginWithToken_part_000_def FORCE_OFFLINE_def Let_def)




text \<open>
  The codes with white space at an end, which the statement above leaves out.
  \<^verbatim>\<open>loginWithToken\<close> caches the code as it was passed, and \<^verbatim>\<open>verifyLocalToken\<close> looks for the
  trimmed code: after a reply that accepts a code with a no-break space behind it, the entry of
  the cache is not found by the same code. The reply is given here; the handler of
  \<^verbatim>\<open>src/server.js\<close> accepts a code only when a row of the table has exactly that code, so it
  accepts no such code from a table whose codes have no white space at their ends.
\<close>

lemma code_is_cached_untrimmed:
  "fst (loginWithToken (example_environment ''F1'' (json_ok (server_identity example_token 5000)))
          (''ACE-AAAA-BBBB-CCCC'' @ [CHR 0xC2, CHR 0xA0]) True (example_client []))
     = Inr (as_User (server_identity example_token 5000))
   \<and> fst (verifyLocalToken (''ACE-AAAA-BBBB-CCCC'' @ [CHR 0xC2, CHR 0xA0]) ''F1'' True
        (snd (loginWithToken (example_environment ''F1'' (json_ok (server_identity example_token 5000)))
               (''ACE-AAAA-BBBB-CCCC'' @ [CHR 0xC2, CHR 0xA0]) True (example_client []))))
     = Inl msg_not_cached"
proof -
  let ?res = "server_identity example_token 5000"
  let ?tok = "''ACE-AAAA-BBBB-CCCC'' @ [CHR 0xC2, CHR 0xA0]"
  have plain: "\<not> requires_binding ?res"
    by (simp add: server_identity_def Let_def)
  have run: "loginWithToken (example_environment ''F1'' (json_ok ?res)) ?tok True (example_client [])
      = (Inr (as_User ?res),
         \<lparr>local_tokens = Parsed [cache_entry (\<lambda>k. 5000 + int k) ?tok ''F1'' (as_User ?res)],
          current_user = Some (as_User ?res)\<rparr>)"
    using plain
    by (simp add: loginWithToken_def FORCE_OFFLINE_def Let_def withTimeout_def apiRequest_def
          json_ok_def example_environment_def saveLocalToken_def getLocalTokens_def example_client_def)
  have up: "toUpperCase ?tok \<noteq> toUpperCase ''ACE-AAAA-BBBB-CCCC''"
    by (simp add: toUpperCase_def)
  have tr: "trim ?tok = ''ACE-AAAA-BBBB-CCCC''"
    by (rule trim_white_space_examples)
  have "fst (verifyLocalToken ?tok ''F1'' True
        \<lparr>local_tokens = Parsed [cache_entry (\<lambda>k. 5000 + int k) ?tok ''F1'' (as_User ?res)],
         current_user = Some (as_User ?res)\<rparr>)
     = Inl msg_not_cached"
    using up tr by (simp add: verifyLocalToken_def getLocalTokens_def cache_entry_def)
  then show ?thesis using run by simp
qed

lemma server_accepts_stored_codes:
  assumes "status (fst (login_with_token now bindError req db)) = 200"
  shows "token_sent req \<in> token_code ` set db"
proof (cases "select_single (token_sent req) db")
  case None
  then show ?thesis using assms by (simp add: login_with_token_def json_error_def)
next
  case (Some row)
  from select_single_filter [OF this]
  have "row \<in> set (filter (\<lambda>r. token_code r = token_sent req) db)" by simp
  then have "row \<in> set db" "token_code row = token_sent req" by simp_all
  then show ?thesis by force
qed

lemma accepted_code_has_no_white_space:
  assumes "status (fst (login_with_token now bindError req db)) = 200"
    and "\<And>row. row \<in> set db \<Longrightarrow> trim (token_code row) = token_code row"
  shows "trim (token_sent req) = token_sent req"
  using server_accepts_stored_codes [OF assms(1)] assms(2) by auto

section \<open>Reset of the device\<close>

text \<open>
  C7 (as amended). \<^verbatim>\<open>resetTokenDevice\<close> clears \<open>device_fingerprint\<close> of the cache entries with the
  given code, and the handler of \<^verbatim>\<open>POST /api/admin/reset-token-device\<close> does so for the rows with
  that code when the store reports no error; every other field, \<open>bound_at\<close> and \<open>expires_at\<close>
  among them, and every other token stay as they were. Afterwards a confirmed verification
  from a device with a non-empty fingerprint binds the active token to that device.
\<close>

theorem reset_clears_the_fingerprint_only:
  "(let c' = snd (resetTokenDevice onLine fetched code c)
    in getLocalTokens c'
         = map (\<lambda>t. if token_code t = code then t\<lparr>device_fingerprint := None\<rparr> else t) (getLocalTokens c)
       \<and> map bound_at (getLocalTokens c') = map bound_at (getLocalTokens c)
       \<and> map expires_at (getLocalTokens c') = map expires_at (getLocalTokens c)
       \<and> (cached tok c = Some t \<and> token_code t = code \<and> is_active t \<and> G \<noteq> []
          \<longrightarrow> fst (verifyLocalToken tok G True c') = Inr (local_identity t)
            \<and> cached tok (snd (verifyLocalToken tok G True c')) = Some (t\<lparr>device_fingerprint := Some G\<rparr>)))
   \<and> (let db' = snd (reset_token_device None code db)
      in db' = map (\<lambda>r. if token_code r = code then r\<lparr>device_fingerprint := None\<rparr> else r) db
         \<and> map bound_at db' = map bound_at db
         \<and> map expires_at db' = map expires_at db
         \<and> (select_single code db = Some row \<and> is_active row \<and> token_sent req = code
              \<and> confirm_binding req \<and> deviceFingerprint req \<noteq> []
            \<longrightarrow> status (fst (login_with_token_part_002 LocalTZA clk None req db')) = 200
              \<and> map_option device_fingerprint
                    (select_single code (snd (login_with_token_part_002 LocalTZA clk None req db')))
                  = Some (Some (deviceFingerprint req))))"
proof (intro conjI)
  let ?clear = "\<lambda>t. t\<lparr>device_fingerprint := None\<rparr>"
  let ?c' = "updateLocalToken code ?clear c"
  have res: "snd (resetTokenDevice onLine fetched code c) = ?c'"
    by (simp add: resetTokenDevice_def Let_def FORCE_OFFLINE_def)
  have toks: "getLocalTokens ?c' = map (\<lambda>t. if token_code t = code then ?clear t else t) (getLocalTokens c)"
    by (rule getLocalTokens_update)
  have frame: "map bound_at (getLocalTokens ?c') = map bound_at (getLocalTokens c)"
    "map expires_at (getLocalTokens ?c') = map expires_at (getLocalTokens c)"
    by (simp_all add: toks comp_def cong: map_cong)
  have rebind: "fst (verifyLocalToken tok G True ?c') = Inr (local_identity t)
        \<and> cached tok (snd (verifyLocalToken tok G True ?c')) = Some (t\<lparr>device_fingerprint := Some G\<rparr>)"
    if h: "cached tok c = Some t \<and> token_code t = code \<and> is_active t \<and> G \<noteq> []"
  proof -
    have sel: "cached tok ?c' = Some (?clear t)"
      using cached_after_update [of ?clear tok c t code] h by simp
    have run: "verifyLocalToken tok G True ?c'
        = (Inr (local_identity t), updateLocalToken code (\<lambda>x. x\<lparr>device_fingerprint := Some G\<rparr>) ?c')"
      using sel h by (simp add: verifyLocalToken_def truthy_def local_identity_fingerprint)
    have "cached tok (updateLocalToken code (\<lambda>x. x\<lparr>device_fingerprint := Some G\<rparr>) ?c')
        = Some ((?clear t)\<lparr>device_fingerprint := Some G\<rparr>)"
      using cached_after_update [of "\<lambda>x. x\<lparr>device_fingerprint := Some G\<rparr>" tok ?c' "?clear t" code] sel h
      by simp
    then show ?thesis using run by simp
  qed
  show "let c' = snd (resetTokenDevice onLine fetched code c)
    in getLocalTokens c'
         = map (\<lambda>t. if token_code t = code then t\<lparr>device_fingerprint := None\<rparr> else t) (getLocalTokens c)
       \<and> map bound_at (getLocalTokens c') = map bound_at (getLocalTokens c)
       \<and> map expires_at (getLocalTokens c') = map expires_at (getLocalTokens c)
       \<and> (cached tok c = Some t \<and> token_code t = code \<and> is_active t \<and> G \<noteq> []
          \<longrightarrow> fst (verifyLocalToken tok G True c') = Inr (local_identity t)
            \<and> cached tok (snd (verifyLocalToken tok G True c')) = Some (t\<lparr>device_fingerprint := Some G\<rparr>))"
    unfolding Let_def res using toks frame rebind by blast
next
  let ?clear = "\<lambda>r. r\<lparr>device_fingerprint := None\<rparr>"
  let ?db' = "map (\<lambda>r. if token_code r = code then ?clear r else r) db"
  have res: "snd (reset_token_device None code db) = ?db'"
    by (simp add: reset_token_device_def update_by_code_def)
  have frame: "map bound_at ?db' = map bound_at db" "map expires_at ?db' = map expires_at db"
    by (simp_all add: comp_def cong: map_cong)
  have rebind: "status (fst (login_with_token_part_002 LocalTZA clk None req ?db')) = 200
        \<and> map_option device_fingerprint
              (select_single code (snd (login_with_token_part_002 LocalTZA clk None req ?db')))
            = Some (Some (deviceFingerprint req))"
    if h: "select_single code db = Some row \<and> is_active row \<and> token_sent req = code
              \<and> confirm_binding req \<and> deviceFingerprint req \<noteq> []"
  proof -
    have one: "filter (\<lambda>r. token_code r = code) db = [row]" and same: "token_code row = code"
      using select_single_filter [of code db row] h by blast+
    from filter_map_same_code [of "\<lambda>r. if token_code r = code then ?clear r else r" "\<lambda>k. k = code" db] one
    have "filter (\<lambda>r. token_code r = code) ?db' = [if token_code row = code then ?clear row else row]"
      by simp
    then have sel: "select_single code ?db' = Some (?clear row)"
      using same by (simp add: select_single_def)
    let ?bind = "\<lambda>r. r\<lparr>device_fingerprint := Some (deviceFingerprint req),
                        bound_at := Some (clk 1), expires_at := Some (setFullYear_next LocalTZA (clk 0))\<rparr>"
    have run: "login_with_token_part_002 LocalTZA clk None req ?db'
        = (json_ok (Summary (summary_of ((?clear row)\<lparr>device_fingerprint := Some (deviceFingerprint req),
                        bound_at := Some (clk 2), expires_at := Some (setFullYear_next LocalTZA (clk 0))\<rparr>) (clk 3))),
           update_by_id (id_field row) ?bind ?db')"
      using sel h by (simp add: login_with_token_part_002_def truthy_def Let_def)
    have "select_single code (update_by_id (id_field row) ?bind ?db')
        = Some (if id_field (?clear row) = id_field row then ?bind (?clear row) else ?clear row)"
      using select_single_after_update [of ?bind code ?db' "?clear row" "id_field row"] sel by simp
    then show ?thesis using run by (simp add: json_ok_def)
  qed
  show "let db' = snd (reset_token_device None code db)
      in db' = map (\<lambda>r. if token_code r = code then r\<lparr>device_fingerprint := None\<rparr> else r) db
         \<and> map bound_at db' = map bound_at db
         \<and> map expires_at db' = map expires_at db
         \<and> (select_single code db = Some row \<and> is_active row \<and> token_sent req = code
              \<and> confirm_binding req \<and> deviceFingerprint req \<noteq> []
            \<longrightarrow> status (fst (login_with_token_part_002 LocalTZA clk None req db')) = 200
              \<and> map_option device_fingerprint
                    (select_single code (snd (login_with_token_part_002 LocalTZA clk None req db')))
                  = Some (Some (deviceFingerprint req)))"
    unfolding Let_def res using frame rebind by blast
qed

theorem reset_clears_the_fingerprint_only_witness:
  "getLocalTokens (snd (resetTokenDevice True (Resolved (json_ok True)) ''ACE-AAAA-BBBB-CCCC''
        (example_client [stamped_token (Some ''F1'')])))
     = [stamped_token None]
   \<and> fst (verifyLocalToken ''ACE-AAAA-BBBB-CCCC'' ''F2'' True
        (snd (resetTokenDevice True (Resolved (json_ok True)) ''ACE-AAAA-BBBB-CCCC''
               (example_client [stamped_token (Some ''F1'')]))))
     = Inr (local_identity (stamped_token (Some ''F1'')))
   \<and> snd (reset_token_device None ''ACE-AAAA-BBBB-CCCC'' [stamped_token (Some ''F1'')])
     = [stamped_token None]
   \<and> status (fst (login_with_token_part_002 west_africa_time example_clock None (example_request ''F2'' True)
        (snd (reset_token_device None ''ACE-AAAA-BBBB-CCCC'' [stamped_token (Some ''F1'')])))) = 200"
proof -
  let ?t = "stamped_token (Some ''F1'')"
  let ?c = "example_client [?t]"
  have fields: "is_active ?t" "token_code ?t = ''ACE-AAAA-BBBB-CCCC''" "''F2'' \<noteq> []"
    by (simp_all add: stamped_token_def example_token_def)
  have local: "cached ''ACE-AAAA-BBBB-CCCC'' ?c = Some ?t"
    by (rule cached_example) (rule sample_codes)
  have remote: "select_single ''ACE-AAAA-BBBB-CCCC'' [?t] = Some ?t"
    by (simp add: select_single_def fields)
  have req: "token_sent (example_request ''F2'' True) = ''ACE-AAAA-BBBB-CCCC''"
    "confirm_binding (example_request ''F2'' True)" "deviceFingerprint (example_request ''F2'' True) \<noteq> []"
    by (simp_all add: example_request_def)
  have cleared: "map (\<lambda>t. if token_code t = ''ACE-AAAA-BBBB-CCCC'' then t\<lparr>device_fingerprint := None\<rparr> else t)
        (getLocalTokens ?c) = [stamped_token None]"
    "map (\<lambda>t. if token_code t = ''ACE-AAAA-BBBB-CCCC'' then t\<lparr>device_fingerprint := None\<rparr> else t) [?t]
       = [stamped_token None]"
    by (simp_all add: getLocalTokens_def example_client_def stamped_token_def example_token_def)
  note inst = reset_clears_the_fingerprint_only [of True "Resolved (json_ok True)" "''ACE-AAAA-BBBB-CCCC''"
      ?c "''ACE-AAAA-BBBB-CCCC''" ?t "''F2''" "[?t]" ?t "example_request ''F2'' True" west_africa_time example_clock,
      unfolded Let_def]
  have a: "getLocalTokens (snd (resetTokenDevice True (Resolved (json_ok True)) ''ACE-AAAA-BBBB-CCCC'' ?c))
      = [stamped_token None]"
    using inst cleared(1) by simp
  have b: "fst (verifyLocalToken ''ACE-AAAA-BBBB-CCCC'' ''F2'' True
        (snd (resetTokenDevice True (Resolved (json_ok True)) ''ACE-AAAA-BBBB-CCCC'' ?c)))
     = Inr (local_identity ?t)"
    using inst local fields by blast
  have c: "snd (reset_token_device None ''ACE-AAAA-BBBB-CCCC'' [?t]) = [stamped_token None]"
    using inst cleared(2) by simp
  have d: "status (fst (login_with_token_part_002 west_africa_time example_clock None (example_request ''F2'' True)
        (snd (reset_token_device None ''ACE-AAAA-BBBB-CCCC'' [?t])))) = 200"
    using inst remote fields(1) req by blast
  show ?thesis using a b c d by blast
qed

text \<open>
  C7 as stated fails: after the reset, in the cache and in the table, the token that was bound
  at time 4000 still has that \<open>bound_at\<close>. When the store reports an error the handler answers
  with status 500 and the row keeps its fingerprint.
\<close>

theorem reset_keeps_bound_at_counterexample:
  "bound_at (stamped_token (Some ''F1'')) = Some 4000
   \<and> getLocalTokens (snd (resetTokenDevice True (Resolved (json_ok True)) ''ACE-AAAA-BBBB-CCCC''
        (example_client [stamped_token (Some ''F1'')])))
     = [stamped_token None]
   \<and> snd (reset_token_device None ''ACE-AAAA-BBBB-CCCC'' [stamped_token (Some ''F1'')])
     = [stamped_token None]
   \<and> device_fingerprint (stamped_token None) = None
   \<and> bound_at (stamped_token None) = Some 4000
   \<and> expires_at (stamped_token None) = Some 9000
   \<and> reset_token_device (Some ''store down'') ''ACE-AAAA-BBBB-CCCC'' [stamped_token (Some ''F1'')]
     = (json_error 500 ''store down'' False, [stamped_token (Some ''F1'')])"
  by (simp add: resetTokenDevice_def reset_token_device_def update_by_code_def updateLocalToken_def
        getLocalTokens_def example_client_def stamped_token_def example_token_def FORCE_OFFLINE_def
        Let_def)

section \<open>The merged list of tokens\<close>

lemma merge_extends:
  "\<exists>extra. fold push_unknown locals combined = combined @ extra \<and> set extra \<subseteq> set locals
     \<and> (\<forall>e \<in> set extra. token_code e \<notin> token_code ` set combined)"
proof (induction locals arbitrary: combined)
  case Nil
  then show ?case by simp
next
  case (Cons l locals)
  obtain extra where e: "fold push_unknown locals (push_unknown l combined) = push_unknown l combined @ extra"
    "set extra \<subseteq> set locals"
    "\<forall>e \<in> set extra. token_code e \<notin> token_code ` set (push_unknown l combined)"
    using Cons.IH by blast
  show ?case
  proof (cases "find (\<lambda>c. token_code c = token_code l) combined = None")
    case True
    then have "fold push_unknown (l # locals) combined = combined @ (l # extra)"
      using e(1) by simp
    moreover have "set (l # extra) \<subseteq> set (l # locals)" using e(2) by auto
    moreover have "token_code l \<notin> token_code ` set combined"
      using True by (auto simp: find_None_iff)
    moreover have "\<forall>x \<in> set extra. token_code x \<notin> token_code ` set combined"
      using e(3) True by auto
    ultimately show ?thesis by auto
  next
    case False
    then have "fold push_unknown (l # locals) combined = combined @ extra"
      using e(1) by simp
    moreover have "set extra \<subseteq> set (l # locals)" using e(2) by auto
    moreover have "\<forall>x \<in> set extra. token_code x \<notin> token_code ` set combined"
      using e(3) False by auto
    ultimately show ?thesis by blast
  qed
qed

lemma merge_distinct:
  "distinct (map token_code combined) \<Longrightarrow> distinct (map token_code (fold push_unknown locals combined))"
proof (induction locals arbitrary: combined)
  case Nil
  then show ?case by simp
next
  case (Cons l locals)
  have "distinct (map token_code (push_unknown l combined))"
    using Cons.prems by (auto simp: find_None_iff)
  from Cons.IH [OF this] show ?case by simp
qed

lemma merge_covers:
  "\<forall>l \<in> set locals \<union> set combined. \<exists>t \<in> set (fold push_unknown locals combined). token_code t = token_code l"
proof (induction locals arbitrary: combined)
  case Nil
  then show ?case by auto
next
  case (Cons l locals)
  have step: "\<forall>x \<in> set (l # locals) \<union> set combined.
      \<exists>y \<in> set locals \<union> set (push_unknown l combined). token_code y = token_code x"
    by (auto simp: find_None_iff)
  show ?case
  proof
    fix x assume "x \<in> set (l # locals) \<union> set combined"
    with step obtain y where y: "y \<in> set locals \<union> set (push_unknown l combined)" "token_code y = token_code x"
      by blast
    with Cons.IH [of "push_unknown l combined"]
    obtain t where "t \<in> set (fold push_unknown locals (push_unknown l combined))" "token_code t = token_code y"
      by blast
    with y(2) show "\<exists>t \<in> set (fold push_unknown (l # locals) combined). token_code t = token_code x"
      by auto
  qed
qed

text \<open>The comparator is consistent exactly when every item has a time of creation.\<close>

lemma consistent_iff: "consistent items = (\<forall>t \<in> set items. created_at t \<noteq> None)"
proof -
  have "comparefn a b \<noteq> None \<longleftrightarrow> created_at a \<noteq> None \<and> created_at b \<noteq> None" for a b
    by (simp add: comparefn_def split: option.splits)
  then show ?thesis by (auto simp add: consistent_def list_all_iff)
qed

text \<open>The insertion sort only reorders, whatever the comparator.\<close>

lemma mset_insort_by: "mset (insort_by cmp x ys) = add_mset x (mset ys)"
  by (induction ys) simp_all

lemma mset_stable_sort: "mset (stable_sort cmp xs) = mset xs"
  by (induction xs) (simp_all add: stable_sort_def mset_insort_by)

text \<open>On items that all have a time of creation it is the sort by the negated time.\<close>

lemma insort_by_key:
  assumes "created_at x \<noteq> None" "\<forall>y \<in> set ys. created_at y \<noteq> None"
  shows "insort_by SortCompare x ys = insort_key (\<lambda>t. - the (created_at t)) x ys"
  using assms
  by (induction ys) (auto simp add: SortCompare_def comparefn_def split: option.splits)

lemma stable_sort_key:
  assumes "\<forall>x \<in> set xs. created_at x \<noteq> None"
  shows "stable_sort SortCompare xs = sort_key (\<lambda>t. - the (created_at t)) xs"
  using assms
proof (induction xs)
  case Nil
  then show ?case by (simp add: stable_sort_def)
next
  case (Cons x xs)
  then have ih: "stable_sort SortCompare xs = sort_key (\<lambda>t. - the (created_at t)) xs" by simp
  have "\<forall>y \<in> set (sort_key (\<lambda>t. - the (created_at t)) xs). created_at y \<noteq> None"
    using Cons.prems by simp
  with Cons.prems ih show ?case
    by (simp add: stable_sort_def sort_key_def insort_by_key)
qed

lemma sorted_newest_first:
  assumes "\<forall>x \<in> set xs. created_at x \<noteq> None" "sorted (map (\<lambda>t. - the (created_at t)) xs)"
  shows "newest_first xs"
  using assms
proof (induction xs)
  case Nil
  then show ?case by (simp add: newest_first_def)
next
  case (Cons a xs)
  then have tail: "newest_first xs" by simp
  obtain ta where ta: "created_at a = Some ta" using Cons.prems(1) by auto
  have "case (created_at a, created_at x) of (Some ta, Some tb) \<Rightarrow> tb \<le> ta | _ \<Rightarrow> False"
    if x: "x \<in> set xs" for x
  proof -
    obtain tx where tx: "created_at x = Some tx" using Cons.prems(1) x by auto
    have "- the (created_at a) \<le> - the (created_at x)" using Cons.prems(2) x by simp
    then show ?thesis by (simp add: ta tx)
  qed
  with tail show ?case by (simp add: newest_first_def)
qed

lemma merged_entry_is_remote:
  assumes "set result = set (remote @ extra)"
    and "\<forall>e \<in> set extra. token_code e \<notin> token_code ` set remote"
  shows "\<forall>t \<in> set result. token_code t \<in> token_code ` set remote \<longrightarrow> t \<in> set remote"
  using assms by auto

lemma Array_sort_reorders:
  assumes "mset (engine items) = mset items"
  shows "mset (Array_sort engine items) = mset items"
  using assms by (simp add: Array_sort_def mset_stable_sort)

lemma Array_sort_newest_first:
  assumes "\<forall>t \<in> set items. created_at t \<noteq> None"
  shows "newest_first (Array_sort engine items)"
proof -
  have "Array_sort engine items = sort_key (\<lambda>t. - the (created_at t)) items"
    using assms by (simp add: Array_sort_def consistent_iff stable_sort_key)
  moreover have "newest_first (sort_key (\<lambda>t. - the (created_at t)) items)"
    by (rule sorted_newest_first) (use assms in simp_all)
  ultimately show ?thesis by simp
qed

text \<open>The sort is stable: tokens of one time of creation keep their order.\<close>

lemma Array_sort_stable:
  assumes "\<forall>t \<in> set items. created_at t \<noteq> None"
  shows "filter (\<lambda>t. created_at t = Some k) (Array_sort engine items)
       = filter (\<lambda>t. created_at t = Some k) items"
proof -
  let ?key = "\<lambda>t. - the (created_at t)"
  have eq: "Array_sort engine items = sort_key ?key items"
    using assms by (simp add: Array_sort_def consistent_iff stable_sort_key)
  have same: "(created_at t = Some k) = (?key t = - k)" if "t \<in> set items" for t
    using assms that by auto
  have "filter (\<lambda>t. created_at t = Some k) (sort_key ?key items)
      = filter (\<lambda>t. ?key t = - k) (sort_key ?key items)"
    by (rule filter_cong) (use same in simp_all)
  also have "\<dots> = filter (\<lambda>t. ?key t = - k) items" by (rule sort_key_stable)
  also have "\<dots> = filter (\<lambda>t. created_at t = Some k) items"
    by (rule filter_cong) (use same in simp_all)
  finally show ?thesis by (simp only: eq)
qed

text \<open>
  C8 (as amended). The engine of \<^verbatim>\<open>Array.prototype.sort\<close> only reorders what it is given. Then
  for every list of remote tokens whose codes are pairwise different and every content of the
  cache, the list that \<^verbatim>\<open>getAllTokens\<close> returns has no two entries with the same code, and the
  record of the remote list is its only entry for a code of the remote list. For every remote
  list, with or without repeated codes, every returned entry whose code is in the remote list is
  a record of the remote list; the result holds every remote token, holds only remote and
  cached tokens, and has an entry for the code of every cached token. When every returned entry
  has a \<open>created_at\<close> that reads as a date, the result is ordered by \<open>created_at\<close>, newest first.
\<close>

theorem merged_list_of_tokens:
  "(\<forall>items. mset (engine items) = mset items) \<longrightarrow>
   (let remote = online_tokens onLine fetched;
        cache = getLocalTokens c;
        result = getAllTokens engine onLine fetched c
    in (distinct (map token_code remote)
          \<longrightarrow> distinct (map token_code result)
            \<and> (\<forall>r \<in> set remote. \<forall>t \<in> set result. token_code t = token_code r \<longrightarrow> t = r))
       \<and> (\<forall>t \<in> set result. token_code t \<in> token_code ` set remote \<longrightarrow> t \<in> set remote)
       \<and> ((\<forall>t \<in> set result. created_at t \<noteq> None) \<longrightarrow> newest_first result)
       \<and> set remote \<subseteq> set result
       \<and> set result \<subseteq> set remote \<union> set cache
       \<and> (\<forall>l \<in> set cache. \<exists>t \<in> set result. token_code t = token_code l))"
proof
  assume engine: "\<forall>items. mset (engine items) = mset items"
  let ?remote = "online_tokens onLine fetched"
  let ?combined = "fold push_unknown (getLocalTokens c) ?remote"
  let ?result = "Array_sort engine ?combined"
  have res: "getAllTokens engine onLine fetched c = ?result"
    by (simp add: getAllTokens_def FORCE_OFFLINE_def Let_def)
  obtain extra where ex: "?combined = ?remote @ extra" "set extra \<subseteq> set (getLocalTokens c)"
    "\<forall>e \<in> set extra. token_code e \<notin> token_code ` set ?remote"
    using merge_extends by blast
  have reorder: "mset ?result = mset ?combined"
    using engine by (simp add: Array_sort_reorders)
  then have set_res: "set ?result = set ?combined" by (rule mset_eq_setD)
  have sub1: "set ?remote \<subseteq> set ?result" using ex(1) set_res by auto
  have sub2: "set ?result \<subseteq> set ?remote \<union> set (getLocalTokens c)" using ex set_res by auto
  have cover: "\<forall>l \<in> set (getLocalTokens c). \<exists>t \<in> set ?result. token_code t = token_code l"
    using merge_covers [of "getLocalTokens c" ?remote] set_res by auto
  have wins: "\<forall>t \<in> set ?result. token_code t \<in> token_code ` set ?remote \<longrightarrow> t \<in> set ?remote"
    by (rule merged_entry_is_remote [of _ _ extra]) (use ex set_res in simp_all)
  have srt: "newest_first ?result" if "\<forall>t \<in> set ?result. created_at t \<noteq> None"
    using that set_res by (intro Array_sort_newest_first) simp
  have dist: "distinct (map token_code ?result)
      \<and> (\<forall>r \<in> set ?remote. \<forall>t \<in> set ?result. token_code t = token_code r \<longrightarrow> t = r)"
    if d: "distinct (map token_code ?remote)"
  proof -
    have dc: "distinct (map token_code ?combined)" using merge_distinct [OF d] .
    then have inj: "inj_on token_code (set ?combined)"
      by (simp add: distinct_map)
    have "mset (map token_code ?result) = mset (map token_code ?combined)"
      using reorder by (simp only: mset_map)
    then have "distinct (map token_code ?result)"
      using dc mset_eq_imp_distinct_iff by blast
    moreover have "\<forall>r \<in> set ?remote. \<forall>t \<in> set ?result. token_code t = token_code r \<longrightarrow> t = r"
      using inj sub1 set_res by (auto dest: inj_onD)
    ultimately show ?thesis by blast
  qed
  show "let remote = online_tokens onLine fetched;
        cache = getLocalTokens c;
        result = getAllTokens engine onLine fetched c
    in (distinct (map token_code remote)
          \<longrightarrow> distinct (map token_code result)
            \<and> (\<forall>r \<in> set remote. \<forall>t \<in> set result. token_code t = token_code r \<longrightarrow> t = r))
       \<and> (\<forall>t \<in> set result. token_code t \<in> token_code ` set remote \<longrightarrow> t \<in> set remote)
       \<and> ((\<forall>t \<in> set result. created_at t \<noteq> None) \<longrightarrow> newest_first result)
       \<and> set remote \<subseteq> set result
       \<and> set result \<subseteq> set remote \<union> set cache
       \<and> (\<forall>l \<in> set cache. \<exists>t \<in> set result. token_code t = token_code l)"
    unfolding Let_def res using dist wins srt sub1 sub2 cover by blast
qed

text \<open>
  Two runs with the engine that sorts by insertion. In the first every token has a time of
  creation. In the second the remote list is a reply of the route of \<^verbatim>\<open>src/unnamed/part_002\<close>,
  without \<open>created_at\<close>; the cached token with the code of the remote one is left out.
\<close>

theorem merged_list_of_tokens_witness:
  "getAllTokens insertion_engine True (Resolved (json_ok [example_token, newer_token]))
      (example_client [deactivated_token, offline_token])
     = [newer_token, offline_token, example_token]
   \<and> distinct (map token_code
        (getAllTokens insertion_engine True (Resolved (json_ok [example_token, newer_token]))
           (example_client [deactivated_token, offline_token])))
   \<and> newest_first
        (getAllTokens insertion_engine True (Resolved (json_ok [example_token, newer_token]))
           (example_client [deactivated_token, offline_token]))
   \<and> getAllTokens insertion_engine True (Resolved (json_ok [undated example_token]))
      (example_client [deactivated_token, offline_token, newer_token])
     = [undated example_token, newer_token, offline_token]
   \<and> distinct (map token_code
        (getAllTokens insertion_engine True (Resolved (json_ok [undated example_token]))
           (example_client [deactivated_token, offline_token, newer_token])))"
proof -
  let ?fetched = "Resolved (json_ok [example_token, newer_token]) :: token_info list fetched"
  let ?c = "example_client [deactivated_token, offline_token]"
  let ?listed = "Resolved (json_ok [undated example_token]) :: token_info list fetched"
  let ?d = "example_client [deactivated_token, offline_token, newer_token]"
  have engine: "\<forall>items. mset (insertion_engine items) = mset items"
    by (simp add: insertion_engine_def mset_stable_sort)
  have remote: "online_tokens True ?fetched = [example_token, newer_token]"
    "online_tokens True ?listed = [undated example_token]"
    by (simp_all add: apiRequest_def FORCE_OFFLINE_def json_ok_def)
  have d: "distinct (map token_code [example_token, newer_token])"
    "distinct (map token_code [undated example_token])"
    by (simp_all add: example_token_def newer_token_def)
  have merged: "fold push_unknown [deactivated_token, offline_token] [example_token, newer_token]
      = [example_token, newer_token, offline_token]"
    "fold push_unknown [deactivated_token, offline_token, newer_token] [undated example_token]
      = [undated example_token, offline_token, newer_token]"
    by (simp_all add: example_token_def newer_token_def offline_token_def deactivated_token_def
          token_bound_to_def undated_def)
  have times: "created_at example_token = Some 1000" "created_at newer_token = Some 3000"
    "created_at offline_token = Some 2000" "created_at (undated example_token) = None"
    by (simp_all add: example_token_def newer_token_def offline_token_def undated_def)
  have sorted1: "Array_sort insertion_engine [example_token, newer_token, offline_token]
      = [newer_token, offline_token, example_token]"
    by (simp add: Array_sort_def consistent_def comparefn_def SortCompare_def stable_sort_def times)
  have sorted2: "Array_sort insertion_engine [undated example_token, offline_token, newer_token]
      = [undated example_token, newer_token, offline_token]"
    by (simp add: Array_sort_def consistent_def comparefn_def SortCompare_def stable_sort_def times
          insertion_engine_def)
  have run: "getAllTokens insertion_engine True f (example_client ts)
      = Array_sort insertion_engine (fold push_unknown ts (online_tokens True f))" for f ts
    by (simp add: getAllTokens_def FORCE_OFFLINE_def Let_def getLocalTokens_def example_client_def)
  have v1: "getAllTokens insertion_engine True ?fetched ?c = [newer_token, offline_token, example_token]"
    by (simp only: run remote merged sorted1)
  have v2: "getAllTokens insertion_engine True ?listed ?d
      = [undated example_token, newer_token, offline_token]"
    by (simp only: run remote merged sorted2)
  have readable: "\<forall>t \<in> set [newer_token, offline_token, example_token]. created_at t \<noteq> None"
    by (simp add: times)
  note inst1 = merged_list_of_tokens [of insertion_engine True ?fetched ?c, unfolded Let_def remote v1]
  note inst2 = merged_list_of_tokens [of insertion_engine True ?listed ?d, unfolded Let_def remote v2]
  have a: "distinct (map token_code [newer_token, offline_token, example_token])"
    using inst1 engine d(1) by blast
  have b: "newest_first [newer_token, offline_token, example_token]"
    using inst1 engine readable by blast
  have c: "distinct (map token_code [undated example_token, newer_token, offline_token])"
    using inst2 engine d(2) by blast
  show ?thesis using a b c by (simp only: v1 v2 simp_thms)
qed

text \<open>
  C8 as stated fails in two ways. A remote list that repeats a code is returned with both
  entries. And the result is not ordered by \<open>created_at\<close> when an entry has none that reads as a
  date: the route \<^verbatim>\<open>GET /api/admin/tokens\<close> of \<^verbatim>\<open>src/unnamed/part_002\<close> sends its entries without
  that key, so the remote entry stays in front of the cached tokens, whenever its row was
  created; and an entry without a date between two others keeps the older of them in front of
  the newer. The comparator returns \<^verbatim>\<open>NaN\<close> for such an entry, which the sort reads as \<open>+0\<close>.
\<close>

theorem merged_list_counterexample:
  "map token_code
     (getAllTokens insertion_engine True (Resolved (json_ok [example_token, example_token]))
        (example_client []))
     = [''ACE-AAAA-BBBB-CCCC'', ''ACE-AAAA-BBBB-CCCC'']
   \<and> getAllTokens insertion_engine True (Resolved (json_ok [undated example_token]))
        (example_client [offline_token, newer_token])
     = [undated example_token, newer_token, offline_token]
   \<and> map created_at [undated example_token, newer_token, offline_token]
     = [None, Some 3000, Some 2000]
   \<and> newest_first [undated example_token, newer_token, offline_token] = False
   \<and> getAllTokens insertion_engine True
        (Resolved (json_ok [example_token, undated offline_token, newer_token])) (example_client [])
     = [example_token, undated offline_token, newer_token]
   \<and> map created_at [example_token, undated offline_token, newer_token]
     = [Some 1000, None, Some 3000]
   \<and> newest_first [example_token, undated offline_token, newer_token] = False"
proof -
  have times: "created_at example_token = Some 1000" "created_at newer_token = Some 3000"
    "created_at offline_token = Some 2000" "created_at (undated t) = None" for t
    by (simp_all add: example_token_def newer_token_def offline_token_def undated_def)
  have codes: "token_code example_token = ''ACE-AAAA-BBBB-CCCC''"
    "token_code newer_token = ''ACE-DDDD-EEEE-FFFF''"
    "token_code offline_token = ''LOCAL-GGGG-HHHH-JJJJ''" "token_code (undated t) = token_code t" for t
    by (simp_all add: example_token_def newer_token_def offline_token_def undated_def)
  have a: "map token_code
     (getAllTokens insertion_engine True (Resolved (json_ok [example_token, example_token]))
        (example_client []))
     = [''ACE-AAAA-BBBB-CCCC'', ''ACE-AAAA-BBBB-CCCC'']"
    by (simp add: getAllTokens_def FORCE_OFFLINE_def apiRequest_def json_ok_def getLocalTokens_def
        example_client_def Let_def Array_sort_def consistent_def comparefn_def SortCompare_def
        stable_sort_def times codes)
  have b: "getAllTokens insertion_engine True (Resolved (json_ok [undated example_token]))
        (example_client [offline_token, newer_token])
     = [undated example_token, newer_token, offline_token]"
    by (simp add: getAllTokens_def FORCE_OFFLINE_def apiRequest_def json_ok_def getLocalTokens_def
        example_client_def Let_def Array_sort_def consistent_def comparefn_def SortCompare_def
        stable_sort_def insertion_engine_def times codes)
  have c: "getAllTokens insertion_engine True
        (Resolved (json_ok [example_token, undated offline_token, newer_token])) (example_client [])
     = [example_token, undated offline_token, newer_token]"
    by (simp add: getAllTokens_def FORCE_OFFLINE_def apiRequest_def json_ok_def getLocalTokens_def
        example_client_def Let_def Array_sort_def consistent_def comparefn_def SortCompare_def
        stable_sort_def insertion_engine_def times codes)
  show ?thesis
    using a b c by (auto simp add: newest_first_def times)
qed

section \<open>Generated codes\<close>

lemma fold_append_pieces:
  "fold (\<lambda>i result. result @ f i) xs acc = acc @ concat (map f xs)"
  by (induction xs arbitrary: acc) simp_all

lemma loop_of_picks:
  assumes "\<And>i. i < n \<Longrightarrow> f i = [chars ! k i]"
  shows "fold (\<lambda>i result. result @ f i) [0..<n] [] = map (\<lambda>i. chars ! k i) [0..<n]"
proof -
  have "concat (map f [0..<n]) = concat (map (\<lambda>i. [chars ! k i]) [0..<n])"
    using assms by (intro arg_cong [where f = concat] map_cong) simp_all
  also have "\<dots> = map (\<lambda>i. chars ! k i) [0..<n]"
    by (induction n) simp_all
  finally show ?thesis by (simp add: fold_append_pieces)
qed

lemma chars_length: "length chars = 32"
  by (simp add: chars_def)

lemma groups_of_picks:
  assumes "\<And>i. i < 12 \<Longrightarrow> k i < 32"
  defines "result \<equiv> map (\<lambda>i. chars ! k i) [0..<12]"
  shows "code_group (substring result 0 4)" "code_group (substring result 4 8)"
    "code_group (substring result 8 12)"
proof -
  have same: "chars = alphabet" by (simp add: chars_def alphabet_def)
  have mem: "chars ! k i \<in> set alphabet" if "i < 12" for i
  proof -
    have "k i < length chars" using assms(1) [OF that] by (simp add: chars_length)
    then have "chars ! k i \<in> set chars" by (rule nth_mem)
    then show ?thesis by (simp only: same)
  qed
  have all: "\<forall>x \<in> set result. x \<in> set alphabet"
    unfolding result_def using mem by auto
  have len: "length result = 12" by (simp add: result_def)
  have part: "list_all (\<lambda>x. x \<in> set alphabet) (substring result a b)" for a b
    unfolding substring_def list_all_iff using all
    by (meson in_set_dropD in_set_takeD)
  have size: "length (substring result 0 4) = 4" "length (substring result 4 8) = 4"
    "length (substring result 8 12) = 4"
    using len by (simp_all add: substring_def)
  show "code_group (substring result 0 4)" "code_group (substring result 4 8)"
    "code_group (substring result 8 12)"
    unfolding code_group_def using part size by blast+
qed

text \<open>
  C9. Every code of \<^verbatim>\<open>generateSecureToken\<close> (from the values of \<^verbatim>\<open>crypto.getRandomValues\<close>, and
  from results of \<^verbatim>\<open>Math.random\<close>, which lie in \<open>[0, 1)\<close>) and every code of \<^verbatim>\<open>generateTokenCode\<close>
  is the prefix, then three times a hyphen and a group of exactly four symbols of the alphabet.
  The alphabet is the string \<^verbatim>\<open>chars\<close> of the code: 32 different symbols, none of them
  \<^verbatim>\<open>0\<close>, \<^verbatim>\<open>O\<close>, \<^verbatim>\<open>1\<close> or \<^verbatim>\<open>I\<close>.
\<close>

theorem generated_codes_have_the_format:
  "(\<exists>g1 g2 g3. generateSecureToken (CryptoValues values) prefix
        = prefix @ ''-'' @ g1 @ ''-'' @ g2 @ ''-'' @ g3
      \<and> code_group g1 \<and> code_group g2 \<and> code_group g3)
   \<and> ((\<forall>i<12. 0 \<le> random i \<and> random i < 1) \<longrightarrow>
        (\<exists>g1 g2 g3. generateSecureToken (MathRandom random) prefix
            = prefix @ ''-'' @ g1 @ ''-'' @ g2 @ ''-'' @ g3
          \<and> code_group g1 \<and> code_group g2 \<and> code_group g3))
   \<and> (\<exists>g1 g2 g3. generateTokenCode randomBytes prefix
        = prefix @ ''-'' @ g1 @ ''-'' @ g2 @ ''-'' @ g3
      \<and> code_group g1 \<and> code_group g2 \<and> code_group g3)
   \<and> chars = alphabet \<and> length alphabet = 32 \<and> distinct alphabet
   \<and> set alphabet \<inter> set ''0O1I'' = {}"
proof (intro conjI impI)
  let ?k = "\<lambda>i. unat (values i) mod 32"
  have "fold (\<lambda>i result. result @ charAt chars (int (unat (values i) mod length chars))) [0..<12] []
      = map (\<lambda>i. chars ! ?k i) [0..<12]"
    by (rule loop_of_picks) (simp add: charAt_def chars_length)
  then have "generateSecureToken (CryptoValues values) prefix
      = prefix @ ''-'' @ substring (map (\<lambda>i. chars ! ?k i) [0..<12]) 0 4 @ ''-''
          @ substring (map (\<lambda>i. chars ! ?k i) [0..<12]) 4 8 @ ''-''
          @ substring (map (\<lambda>i. chars ! ?k i) [0..<12]) 8 12"
    by (simp add: generateSecureToken_def Let_def)
  moreover have "?k i < 32" for i by simp
  ultimately show "\<exists>g1 g2 g3. generateSecureToken (CryptoValues values) prefix
        = prefix @ ''-'' @ g1 @ ''-'' @ g2 @ ''-'' @ g3
      \<and> code_group g1 \<and> code_group g2 \<and> code_group g3"
    using groups_of_picks [of ?k] by blast
next
  assume range: "\<forall>i<12. 0 \<le> random i \<and> random i < 1"
  let ?k = "\<lambda>i. nat \<lfloor>random i * 32\<rfloor>"
  have bounds: "0 \<le> \<lfloor>random i * 32\<rfloor> \<and> \<lfloor>random i * 32\<rfloor> < 32" if "i < 12" for i
  proof -
    have "0 \<le> random i * 32" "random i * 32 < 32" using range that by auto
    then show ?thesis by (simp add: floor_less_iff)
  qed
  have "fold (\<lambda>i result. result @ charAt chars \<lfloor>random i * real (length chars)\<rfloor>) [0..<12] []
      = map (\<lambda>i. chars ! ?k i) [0..<12]"
    by (rule loop_of_picks) (use bounds in \<open>simp add: charAt_def chars_length\<close>)
  then have "generateSecureToken (MathRandom random) prefix
      = prefix @ ''-'' @ substring (map (\<lambda>i. chars ! ?k i) [0..<12]) 0 4 @ ''-''
          @ substring (map (\<lambda>i. chars ! ?k i) [0..<12]) 4 8 @ ''-''
          @ substring (map (\<lambda>i. chars ! ?k i) [0..<12]) 8 12"
    by (simp add: generateSecureToken_def Let_def)
  moreover have "?k i < 32" if "i < 12" for i using bounds [OF that] by linarith
  ultimately show "\<exists>g1 g2 g3. generateSecureToken (MathRandom random) prefix
        = prefix @ ''-'' @ g1 @ ''-'' @ g2 @ ''-'' @ g3
      \<and> code_group g1 \<and> code_group g2 \<and> code_group g3"
    using groups_of_picks [of ?k] by blast
next
  let ?k = "\<lambda>i. unat (randomBytes i) mod 32"
  have "fold (\<lambda>i result. result @ char_index chars (unat (randomBytes i) mod length chars)) [0..<12] []
      = map (\<lambda>i. chars ! ?k i) [0..<12]"
    by (rule loop_of_picks) (simp add: char_index_def chars_length)
  then have "generateTokenCode randomBytes prefix
      = prefix @ ''-'' @ substring (map (\<lambda>i. chars ! ?k i) [0..<12]) 0 4 @ ''-''
          @ substring (map (\<lambda>i. chars ! ?k i) [0..<12]) 4 8 @ ''-''
          @ substring (map (\<lambda>i. chars ! ?k i) [0..<12]) 8 12"
    by (simp add: generateTokenCode_def Let_def)
  moreover have "?k i < 32" for i by simp
  ultimately show "\<exists>g1 g2 g3. generateTokenCode randomBytes prefix
        = prefix @ ''-'' @ g1 @ ''-'' @ g2 @ ''-'' @ g3
      \<and> code_group g1 \<and> code_group g2 \<and> code_group g3"
    using groups_of_picks [of ?k] by blast
next
  show "chars = alphabet" by (simp add: chars_def alphabet_def)
  show "length alphabet = 32" by (simp add: alphabet_def)
  show "distinct alphabet" by (simp add: alphabet_def)
  show "set alphabet \<inter> set ''0O1I'' = {}" by (simp add: alphabet_def)
qed

theorem generated_codes_have_the_format_witness:
  "(0::real) \<le> 1 / 2 \<and> (1::real) / 2 < 1
   \<and> (\<exists>g1 g2 g3. generateSecureToken (MathRandom even_odds) ''ACE''
        = ''ACE'' @ ''-'' @ g1 @ ''-'' @ g2 @ ''-'' @ g3
      \<and> code_group g1 \<and> code_group g2 \<and> code_group g3)
   \<and> generateSecureToken (MathRandom even_odds) ''ACE'' = ''ACE-SSSS-SSSS-SSSS''
   \<and> generateTokenCode (\<lambda>i. 255) ''ACE'' = ''ACE-9999-9999-9999''"
proof -
  have range: "\<forall>i<12. 0 \<le> even_odds i \<and> even_odds i < 1"
    by (simp add: even_odds_def)
  from generated_codes_have_the_format [of _ "''ACE''" even_odds] range
  have a: "\<exists>g1 g2 g3. generateSecureToken (MathRandom even_odds) ''ACE''
        = ''ACE'' @ ''-'' @ g1 @ ''-'' @ g2 @ ''-'' @ g3
      \<and> code_group g1 \<and> code_group g2 \<and> code_group g3"
    by blast
  have up: "[0..<12] = [0, 1, 2, 3, 4, 5, 6, 7, 8, 9, 10, 11]"
    by (simp add: upt_rec)
  have b: "generateSecureToken (MathRandom even_odds) ''ACE'' = ''ACE-SSSS-SSSS-SSSS''"
    by (simp add: generateSecureToken_def even_odds_def charAt_def chars_def substring_def up)
  have c: "generateTokenCode (\<lambda>i. 255) ''ACE'' = ''ACE-9999-9999-9999''"
    by (simp add: generateTokenCode_def char_index_def chars_def substring_def up)
  show ?thesis using a b c by simp
qed

end
